theory Spec2Isabelle
  imports Complex_Main "HOL-Library.Word" "HOL-Library.Sublist"
begin

unbundle bit_operations_syntax

section \<open>JavaScript values\<close>

text \<open>
  A JavaScript string is modelled as a \<^typ>\<open>string\<close>: the list of its code units,
  restricted to the code units below 256. \<open>null\<close> and \<open>undefined\<close> are \<open>None\<close>.
  Numbers that the server only ever computes as integers (lives, counters, millisecond
  timestamps) are \<^typ>\<open>int\<close> or \<^typ>\<open>nat\<close>. \<open>Date.now()\<close> and \<open>Math.random()\<close> are
  read from the environment: every function that calls them takes the value read as an
  argument.
\<close>

text \<open>\<open>x || d\<close> on an optional string: \<open>null\<close>, \<open>undefined\<close> and \<open>''\<close> are falsy.\<close>

definition truthyS :: "string option \<Rightarrow> bool" where
  "truthyS x = (case x of None \<Rightarrow> False | Some s \<Rightarrow> s \<noteq> [])"

definition orElseS :: "string option \<Rightarrow> string \<Rightarrow> string" where
  "orElseS x d = (case x of None \<Rightarrow> d | Some s \<Rightarrow> if s = [] then d else s)"

definition orNullS :: "string option \<Rightarrow> string option" where
  "orNullS x = (if truthyS x then x else None)"

section \<open>roomManager.js\<close>

datatype gameState = Lobby | Playing | Finished

record session =
  s_socketId :: "string option"
  s_roomId :: "string option"
  s_lastDisconnectTime :: "int option"

record player =
  p_token :: string
  p_socketId :: string
  p_name :: "string option"
  p_avatar :: string
  isHost :: bool
  isReady :: bool
  lives :: int
  wordsFound :: int
  isAlive :: bool
  disconnected :: bool

record spectator =
  sp_token :: string
  sp_socketId :: string
  sp_name :: "string option"
  sp_avatar :: "string option"

record roomSettings =
  scenario :: "string option"
  wpp :: "string option"
  maxPlayers :: nat
  startingLives :: int
  extraTurnSeconds :: "int option"

text \<open>
  The interval handle kept in \<open>room.game.timer\<close>: the closure of the armed interval
  holds the end time and the total it reports in \<open>timerUpdate\<close>.
\<close>

record roomTimer =
  tm_endTime :: int
  tm_total :: int

record roomGame =
  currentSyllable :: "string option"
  currentPlayerIndex :: nat
  roundNumber :: nat
  startTime :: "int option"
  timer :: "roomTimer option"
  timerEndTime :: "int option"
  timerTotal :: "int option"
  paused :: bool
  pausedRemaining :: "int option"
  pausedAt :: "int option"
  usedSyllables :: "string set"
  serverControlledUntil :: "int option"

text \<open>
  \<open>_recentlyLeft\<close> holds copies \<open>{...leavingPlayer, leftAt}\<close>; an absent list and an
  empty one behave alike in every use, so absence is the empty list. The same holds for
  \<open>usedSyllables\<close>, which is only tested, extended and cleared.
\<close>

record room =
  r_id :: string
  r_name :: string
  host :: "string option"
  hostAvatar :: string
  hostToken :: string
  pendingSpectators :: "spectator list"
  players :: "player list"
  gameState :: gameState
  settings :: roomSettings
  game :: roomGame
  createdAt :: int
  recentlyLeft :: "(player \<times> int) list"

record roomManager =
  rooms :: "string \<rightharpoonup> room"
  sessions :: "string \<rightharpoonup> session"
  sockets :: "string \<rightharpoonup> string"

definition newRoomManager :: roomManager where
  "newRoomManager = \<lparr>rooms = Map.empty, sessions = Map.empty, sockets = Map.empty\<rparr>"

text \<open>\<open>const session = this.sessions.get(t); if (session) session.roomId = roomId\<close>\<close>

definition setSessionRoom :: "(string \<rightharpoonup> session) \<Rightarrow> string \<Rightarrow> string \<Rightarrow> (string \<rightharpoonup> session)" where
  "setSessionRoom ss t roomId =
     (case ss t of None \<Rightarrow> ss | Some s \<Rightarrow> ss(t \<mapsto> s\<lparr>s_roomId := Some roomId\<rparr>))"

definition registerSocket :: "roomManager \<Rightarrow> string \<Rightarrow> string \<Rightarrow> roomManager \<times> session" where
  "registerSocket rm sessionToken socketId =
     (case sessions rm sessionToken of
        Some existing \<Rightarrow>
          (let socks = (case s_socketId existing of
                          None \<Rightarrow> sockets rm
                        | Some old \<Rightarrow> (sockets rm)(old := None));
               s' = existing\<lparr>s_socketId := Some socketId\<rparr>
           in (rm\<lparr>sessions := (sessions rm)(sessionToken \<mapsto> s'),
                   sockets := socks(socketId \<mapsto> sessionToken)\<rparr>, s'))
      | None \<Rightarrow>
          (let s' = \<lparr>s_socketId = Some socketId, s_roomId = None, s_lastDisconnectTime = None\<rparr>
           in (rm\<lparr>sessions := (sessions rm)(sessionToken \<mapsto> s'),
                   sockets := (sockets rm)(socketId \<mapsto> sessionToken)\<rparr>, s')))"

definition unregisterSocket :: "roomManager \<Rightarrow> string \<Rightarrow> roomManager \<times> string option" where
  "unregisterSocket rm socketId =
     (let tok = sockets rm socketId;
          rm1 = rm\<lparr>sockets := (sockets rm)(socketId := None)\<rparr>
      in if truthyS tok then
           (case sessions rm1 (the tok) of
              Some s \<Rightarrow>
                (if s_socketId s = Some socketId
                 then (rm1\<lparr>sessions := (sessions rm1)(the tok \<mapsto> s\<lparr>s_socketId := None\<rparr>)\<rparr>, tok)
                 else (rm1, tok))
            | None \<Rightarrow> (rm1, tok))
         else (rm1, tok))"

record roomData =
  rd_id :: "string option"
  rd_name :: "string option"
  rd_host :: "string option"
  rd_hostAvatar :: "string option"
  rd_scenario :: "string option"
  rd_wpp :: "string option"

text \<open>
  \<open>generateId(prefix)\<close> is \<open>prefix + Date.now() + '_' + random digits\<close>; \<open>stamp\<close> is
  the part read from the clock and the random source. \<open>now\<close> is the value of
  \<open>Date.now()\<close>.
\<close>

definition generateId :: "string \<Rightarrow> string \<Rightarrow> string" where
  "generateId pre stamp = pre @ stamp"

definition createRoom :: "roomManager \<Rightarrow> roomData \<Rightarrow> string \<Rightarrow> string \<Rightarrow> string \<Rightarrow> int \<Rightarrow> roomManager \<times> room" where
  "createRoom rm rdata hostSocketId hostTok stamp now =
     (let roomId = orElseS (rd_id rdata) (generateId ''room_'' stamp);
          r = \<lparr>r_id = roomId,
               r_name = orElseS (rd_name rdata) ''Salle de jeu'',
               host = rd_host rdata,
               hostAvatar = orElseS (rd_hostAvatar rdata) [],
               hostToken = hostTok,
               pendingSpectators = [],
               players = [\<lparr>p_token = hostTok, p_socketId = hostSocketId,
                            p_name = rd_host rdata,
                            p_avatar = orElseS (rd_hostAvatar rdata) [],
                            isHost = True, isReady = True, lives = 2, wordsFound = 0,
                            isAlive = True, disconnected = False\<rparr>],
               gameState = Lobby,
               settings = \<lparr>scenario = orNullS (rd_scenario rdata), wpp = orNullS (rd_wpp rdata),
                             maxPlayers = 6, startingLives = 2, extraTurnSeconds = None\<rparr>,
               game = \<lparr>currentSyllable = None, currentPlayerIndex = 0, roundNumber = 0,
                         startTime = None, timer = None, timerEndTime = None, timerTotal = None,
                         paused = False, pausedRemaining = None, pausedAt = None,
                         usedSyllables = {}, serverControlledUntil = None\<rparr>,
               createdAt = now,
               recentlyLeft = []\<rparr>
      in (rm\<lparr>rooms := (rooms rm)(roomId \<mapsto> r),
              sessions := setSessionRoom (sessions rm) hostTok roomId\<rparr>, r))"

record playerData =
  pd_name :: "string option"
  pd_avatar :: "string option"

text \<open>
  The three refusals of \<open>joinRoom\<close>: \<open>'Salle introuvable'\<close>, \<open>'Salle pleine'\<close> and
  \<open>'Partie en cours ... impossible de rejoindre'\<close>. A success carries the room and the
  \<open>reconnected\<close> flag.
\<close>

datatype joinError = SalleIntrouvable | SallePleine | PartieEnCours

datatype joinResult = JoinError joinError | Joined room bool

text \<open>\<open>const o = xs.find(P); if (o) o.field = v\<close>: the first match is updated in place.\<close>

fun updFirst :: "('a \<Rightarrow> bool) \<Rightarrow> ('a \<Rightarrow> 'a) \<Rightarrow> 'a list \<Rightarrow> 'a list" where
  "updFirst P f [] = []"
| "updFirst P f (x # xs) = (if P x then f x # xs else x # updFirst P f xs)"

text \<open>The session update of a reconnection: socket, room, and the disconnect stamp reset.\<close>

definition rebindSession :: "(string \<rightharpoonup> session) \<Rightarrow> string \<Rightarrow> string \<Rightarrow> string \<Rightarrow> (string \<rightharpoonup> session)" where
  "rebindSession ss t socketId roomId =
     (case ss t of
        None \<Rightarrow> ss
      | Some s \<Rightarrow> ss(t \<mapsto> s\<lparr>s_socketId := Some socketId, s_roomId := Some roomId,
                               s_lastDisconnectTime := None\<rparr>))"

definition joinRoom :: "roomManager \<Rightarrow> string \<Rightarrow> playerData \<Rightarrow> string \<Rightarrow> string \<Rightarrow> roomManager \<times> joinResult" where
  "joinRoom rm roomId pdata socketId tok =
     (case rooms rm roomId of
        None \<Rightarrow> (rm, JoinError SalleIntrouvable)
      | Some r \<Rightarrow>
          if find (\<lambda>p. p_token p = tok) (players r) \<noteq> None then
            (let r' = r\<lparr>players := updFirst (\<lambda>p. p_token p = tok)
                                            (\<lambda>p. p\<lparr>p_socketId := socketId\<rparr>) (players r)\<rparr>
             in (rm\<lparr>rooms := (rooms rm)(roomId \<mapsto> r'),
                     sessions := rebindSession (sessions rm) tok socketId roomId\<rparr>,
                 Joined r' True))
          else if length (players r) \<ge> maxPlayers (settings r) then
            (rm, JoinError SallePleine)
          else if gameState r = Playing then
            (let isReturningHost = (hostToken r = tok);
                 wasInRoom = find (\<lambda>(p, t). p_token p = tok) (recentlyLeft r)
             in if \<not> isReturningHost \<and> wasInRoom = None then
                  (rm, JoinError PartieEnCours)
                else
                  (let pl = \<lparr>p_token = tok, p_socketId = socketId,
                             p_name = (case wasInRoom of
                                         Some (rp, t) \<Rightarrow> p_name rp
                                       | None \<Rightarrow> Some (orElseS (pd_name pdata) ''Joueur'')),
                             p_avatar = (case wasInRoom of
                                           Some (rp, t) \<Rightarrow> p_avatar rp
                                         | None \<Rightarrow> orElseS (pd_avatar pdata) []),
                             isHost = isReturningHost,
                             isReady = True,
                             lives = (case wasInRoom of
                                        Some (rp, t) \<Rightarrow> lives rp
                                      | None \<Rightarrow> startingLives (settings r)),
                             wordsFound = (case wasInRoom of
                                             Some (rp, t) \<Rightarrow> wordsFound rp | None \<Rightarrow> 0),
                             isAlive = (case wasInRoom of
                                          Some (rp, t) \<Rightarrow> isAlive rp | None \<Rightarrow> True),
                             disconnected = False\<rparr>;
                       r' = r\<lparr>players := players r @ [pl]\<rparr>
                   in (rm\<lparr>rooms := (rooms rm)(roomId \<mapsto> r'),
                           sessions := rebindSession (sessions rm) tok socketId roomId\<rparr>,
                       Joined r' True)))
          else
            (let pl = \<lparr>p_token = tok, p_socketId = socketId,
                       p_name = pd_name pdata,
                       p_avatar = orElseS (pd_avatar pdata) [],
                       isHost = False, isReady = False,
                       lives = startingLives (settings r),
                       wordsFound = 0, isAlive = True, disconnected = False\<rparr>;
                 r' = r\<lparr>players := players r @ [pl]\<rparr>
             in (rm\<lparr>rooms := (rooms rm)(roomId \<mapsto> r'),
                     sessions := setSessionRoom (sessions rm) tok roomId\<rparr>,
                 Joined r' False)))"

datatype leaveResult = LeaveNull | RoomDeleted string | Left room "string option"

definition leaveRoom :: "roomManager \<Rightarrow> string \<Rightarrow> int \<Rightarrow> roomManager \<times> leaveResult" where
  "leaveRoom rm tok now =
     (case sessions rm tok of
        None \<Rightarrow> (rm, LeaveNull)
      | Some sess \<Rightarrow>
          if \<not> truthyS (s_roomId sess) then (rm, LeaveNull)
          else
            (let roomId = the (s_roomId sess);
                 ss = (sessions rm)(tok \<mapsto> sess\<lparr>s_roomId := None\<rparr>)
             in case rooms rm roomId of
                  None \<Rightarrow> (rm\<lparr>sessions := ss\<rparr>, LeaveNull)
                | Some r \<Rightarrow>
                    (let wasHost = (hostToken r = tok);
                         leavingPlayer = find (\<lambda>p. p_token p = tok) (players r);
                         r1 = (case leavingPlayer of
                                 Some lp \<Rightarrow>
                                   if gameState r = Playing
                                   then r\<lparr>recentlyLeft := recentlyLeft r @ [(lp, now)]\<rparr>
                                   else r
                               | None \<Rightarrow> r);
                         r2 = r1\<lparr>players := filter (\<lambda>p. p_token p \<noteq> tok) (players r1)\<rparr>
                     in case players r2 of
                          [] \<Rightarrow>
                            (let r3 = r2\<lparr>game := (game r2)\<lparr>timer := None\<rparr>\<rparr>
                             in (rm\<lparr>rooms := ((rooms rm)(roomId \<mapsto> r3))(r_id r3 := None),
                                     sessions := ss\<rparr>,
                                 RoomDeleted (r_id r3)))
                        | next # rest \<Rightarrow>
                            if wasHost then
                              (let r3 = r2\<lparr>players := next\<lparr>isHost := True\<rparr> # rest,
                                            hostToken := p_token next,
                                            host := p_name next,
                                            hostAvatar := p_avatar next\<rparr>
                               in (rm\<lparr>rooms := (rooms rm)(roomId \<mapsto> r3), sessions := ss\<rparr>,
                                   Left r3 (p_name next)))
                            else
                              (rm\<lparr>rooms := (rooms rm)(roomId \<mapsto> r2), sessions := ss\<rparr>,
                               Left r2 None))))"

text \<open>The purge that \<open>leaveRoom\<close> schedules for 60 s later, run at time \<open>now\<close>.\<close>

definition purgeRecentlyLeft :: "room \<Rightarrow> string \<Rightarrow> int \<Rightarrow> room" where
  "purgeRecentlyLeft r tok now =
     r\<lparr>recentlyLeft := filter (\<lambda>(p, leftAt). p_token p \<noteq> tok \<or> now - leftAt < 60000)
                                 (recentlyLeft r)\<rparr>"

definition getSocketId :: "roomManager \<Rightarrow> string \<Rightarrow> string option" where
  "getSocketId rm tok = (case sessions rm tok of None \<Rightarrow> None | Some s \<Rightarrow> s_socketId s)"

definition getRoom :: "roomManager \<Rightarrow> string \<Rightarrow> room option" where
  "getRoom rm roomId = rooms rm roomId"

definition setDisconnected :: "roomManager \<Rightarrow> string \<Rightarrow> bool \<Rightarrow> roomManager \<times> room option" where
  "setDisconnected rm tok d =
     (case sessions rm tok of
        None \<Rightarrow> (rm, None)
      | Some sess \<Rightarrow>
          if \<not> truthyS (s_roomId sess) then (rm, None)
          else (case rooms rm (the (s_roomId sess)) of
                  None \<Rightarrow> (rm, None)
                | Some r \<Rightarrow>
                    (let r' = r\<lparr>players := updFirst (\<lambda>p. p_token p = tok)
                                                   (\<lambda>p. p\<lparr>disconnected := d\<rparr>) (players r)\<rparr>
                     in (rm\<lparr>rooms := (rooms rm)(the (s_roomId sess) \<mapsto> r')\<rparr>, Some r'))))"

definition markDisconnected :: "roomManager \<Rightarrow> string \<Rightarrow> roomManager \<times> room option" where
  "markDisconnected rm tok = setDisconnected rm tok True"

definition markReconnected :: "roomManager \<Rightarrow> string \<Rightarrow> roomManager \<times> room option" where
  "markReconnected rm tok = setDisconnected rm tok False"

definition isHostOf :: "roomManager \<Rightarrow> string \<Rightarrow> string \<Rightarrow> bool" where
  "isHostOf rm roomId tok =
     (case rooms rm roomId of None \<Rightarrow> False | Some r \<Rightarrow> hostToken r = tok)"

definition resetForGame :: "int \<Rightarrow> player \<Rightarrow> player" where
  "resetForGame sl p = p\<lparr>lives := sl, wordsFound := 0, isAlive := True\<rparr>"

definition startGame :: "roomManager \<Rightarrow> string \<Rightarrow> int \<Rightarrow> roomManager \<times> room option" where
  "startGame rm roomId now =
     (case rooms rm roomId of
        None \<Rightarrow> (rm, None)
      | Some r \<Rightarrow>
          (let r' = r\<lparr>gameState := Playing,
                        game := (game r)\<lparr>startTime := Some now, roundNumber := 0,
                                           currentPlayerIndex := 0\<rparr>,
                        players := map (resetForGame (startingLives (settings r))) (players r)\<rparr>
           in (rm\<lparr>rooms := (rooms rm)(roomId \<mapsto> r')\<rparr>, Some r')))"

text \<open>
  The loop of \<open>endGame\<close> over \<open>room.pendingSpectators\<close>. It carries the players (which
  grow, so that a token promoted once is skipped the second time), the new players and
  the sessions.
\<close>

definition playerOfSpectator :: "int \<Rightarrow> spectator \<Rightarrow> player" where
  "playerOfSpectator sl spec =
     \<lparr>p_token = sp_token spec, p_socketId = sp_socketId spec, p_name = sp_name spec,
      p_avatar = orElseS (sp_avatar spec) [],
      isHost = False, isReady = False, lives = sl, wordsFound = 0, isAlive = True,
      disconnected = False\<rparr>"

fun promoteSpectators ::
  "string \<Rightarrow> int \<Rightarrow> spectator list \<Rightarrow> player list \<Rightarrow> player list \<Rightarrow> (string \<rightharpoonup> session)
     \<Rightarrow> player list \<times> player list \<times> (string \<rightharpoonup> session)" where
  "promoteSpectators roomId sl [] ps nps ss = (ps, nps, ss)"
| "promoteSpectators roomId sl (spec # specs) ps nps ss =
     (if find (\<lambda>p. p_token p = sp_token spec) ps \<noteq> None
      then promoteSpectators roomId sl specs ps nps ss
      else promoteSpectators roomId sl specs
             (ps @ [playerOfSpectator sl spec]) (nps @ [playerOfSpectator sl spec])
             (setSessionRoom ss (sp_token spec) roomId))"

definition resetForLobby :: "int \<Rightarrow> player \<Rightarrow> player" where
  "resetForLobby sl p = p\<lparr>lives := sl, wordsFound := 0, isAlive := True, isReady := False\<rparr>"

text \<open>
  \<open>winner\<close> is a reference into \<open>room.players\<close>, taken before the final reset of every
  player, so the object returned carries the values after that reset.
\<close>

record endGameResult =
  eg_room :: room
  eg_winner :: "player option"
  eg_newPlayers :: "player list"

definition endGame :: "roomManager \<Rightarrow> string \<Rightarrow> roomManager \<times> endGameResult option" where
  "endGame rm roomId =
     (case rooms rm roomId of
        None \<Rightarrow> (rm, None)
      | Some r \<Rightarrow>
          (let sl = startingLives (settings r);
               alive = filter (\<lambda>p. isAlive p \<and> lives p > 0) (players r);
               winner = (case alive of
                           a # as \<Rightarrow> Some a
                         | [] \<Rightarrow> (case players r of p # ps \<Rightarrow> Some p | [] \<Rightarrow> None));
               (ps, nps, ss) = promoteSpectators roomId sl (pendingSpectators r)
                                 (players r) [] (sessions rm);
               r' = r\<lparr>gameState := Lobby,
                        game := (game r)\<lparr>timer := None\<rparr>,
                        pendingSpectators := [],
                        players := map (resetForLobby sl) ps\<rparr>
           in (rm\<lparr>rooms := (rooms rm)(roomId \<mapsto> r'), sessions := ss\<rparr>,
               Some \<lparr>eg_room = r', eg_winner = map_option (resetForLobby sl) winner,
                     eg_newPlayers = nps\<rparr>)))"

subsection \<open>Properties of the room manager\<close>

text \<open>
  \<open>hostOk\<close>: the players flagged \<open>isHost\<close> are exactly one, and its token is
  \<open>hostToken\<close>. \<open>sameMembership\<close> relates a room to any update of it that keeps the
  tokens and host flags of its players, its \<open>hostToken\<close> and its id: the socket handlers of
  the server write other fields of rooms and players directly.
\<close>

definition hostOk :: "room \<Rightarrow> bool" where
  "hostOk r = (map p_token (filter isHost (players r)) = [hostToken r])"

definition sameMembership :: "room \<Rightarrow> room \<Rightarrow> bool" where
  "sameMembership r r' =
     (map (\<lambda>p. (p_token p, isHost p)) (players r') = map (\<lambda>p. (p_token p, isHost p)) (players r)
      \<and> hostToken r' = hostToken r \<and> r_id r' = r_id r)"

definition roomsInv :: "roomManager \<Rightarrow> bool" where
  "roomsInv rm = (\<forall>rid r. rooms rm rid = Some r \<longrightarrow> hostOk r \<and> r_id r = rid \<and> rid \<noteq> [])"

text \<open>
  The states of the room manager: its methods from \<open>new RoomManager()\<close>, the direct
  writes of the server to fields that are not membership (\<open>r_field\<close>, \<open>r_session\<close>) and
  the periodic removal of rooms (\<open>r_cleanup\<close>).
\<close>

inductive reachable :: "roomManager \<Rightarrow> bool" where
  r_new: "reachable newRoomManager"
| r_register: "reachable rm \<Longrightarrow> reachable (fst (registerSocket rm tok sid))"
| r_unregister: "reachable rm \<Longrightarrow> reachable (fst (unregisterSocket rm sid))"
| r_create: "reachable rm \<Longrightarrow> reachable (fst (createRoom rm rd sid tok stamp now))"
| r_join: "reachable rm \<Longrightarrow> reachable (fst (joinRoom rm rid pd sid tok))"
| r_leave: "reachable rm \<Longrightarrow> reachable (fst (leaveRoom rm tok now))"
| r_end: "reachable rm \<Longrightarrow> reachable (fst (endGame rm rid))"
| r_start: "reachable rm \<Longrightarrow> reachable (fst (startGame rm rid now))"
| r_markD: "reachable rm \<Longrightarrow> reachable (fst (markDisconnected rm tok))"
| r_markR: "reachable rm \<Longrightarrow> reachable (fst (markReconnected rm tok))"
| r_field: "reachable rm \<Longrightarrow> rooms rm rid = Some r \<Longrightarrow> sameMembership r r' \<Longrightarrow>
            reachable (rm\<lparr>rooms := (rooms rm)(rid \<mapsto> r')\<rparr>)"
| r_session: "reachable rm \<Longrightarrow> reachable (rm\<lparr>sessions := ss\<rparr>)"
| r_cleanup: "reachable rm \<Longrightarrow> reachable (rm\<lparr>rooms := (rooms rm)(rid := None)\<rparr>)"

inductive membershipMutation :: "roomManager \<Rightarrow> roomManager \<Rightarrow> bool" where
  m_create: "membershipMutation rm (fst (createRoom rm rd sid tok stamp now))"
| m_join: "membershipMutation rm (fst (joinRoom rm rid pd sid tok))"
| m_leave: "membershipMutation rm (fst (leaveRoom rm tok now))"
| m_end: "membershipMutation rm (fst (endGame rm rid))"

definition hostPromoted :: "roomManager \<Rightarrow> string \<Rightarrow> int \<Rightarrow> string \<Rightarrow> player \<Rightarrow> player list \<Rightarrow> bool" where
  "hostPromoted rm tok now rid nx rest =
     (case leaveRoom rm tok now of
        (rm', Left r' newHost) \<Rightarrow>
           rooms rm' rid = Some r' \<and> players r' = nx\<lparr>isHost := True\<rparr> # rest
           \<and> hostToken r' = p_token nx \<and> newHost = p_name nx
      | _ \<Rightarrow> False)"

definition freshFrom :: "int \<Rightarrow> spectator list \<Rightarrow> player \<Rightarrow> bool" where
  "freshFrom sl specs np =
     (\<exists>spec \<in> set specs. p_token np = sp_token spec \<and> p_socketId np = sp_socketId spec
         \<and> p_name np = sp_name spec
         \<and> lives np = sl \<and> wordsFound np = 0 \<and> isAlive np \<and> \<not> isReady np \<and> \<not> isHost np)"

definition endGamePromotion :: "roomManager \<Rightarrow> string \<Rightarrow> room \<Rightarrow> bool" where
  "endGamePromotion rm roomId r =
     (case endGame rm roomId of
        (rm', Some res) \<Rightarrow>
          rooms rm' roomId = Some (eg_room res)
          \<and> players (eg_room res)
              = map (resetForLobby (startingLives (settings r))) (players r) @ eg_newPlayers res
          \<and> p_token ` set (eg_newPlayers res)
              = sp_token ` set (pendingSpectators r) - p_token ` set (players r)
          \<and> distinct (map p_token (eg_newPlayers res))
          \<and> list_all (freshFrom (startingLives (settings r)) (pendingSpectators r)) (eg_newPlayers res)
          \<and> pendingSpectators (eg_room res) = []
          \<and> maxPlayers (settings (eg_room res)) = maxPlayers (settings r)
      | _ \<Rightarrow> False)"

definition crowdedRoom :: roomManager where
  "crowdedRoom =
     (let (rm, r) = createRoom newRoomManager
                      \<lparr>rd_id = Some ''R'', rd_name = None, rd_host = Some ''H'', rd_hostAvatar = None,
                        rd_scenario = None, rd_wpp = None\<rparr> ''s0'' ''h'' ''1'' 0
      in rm\<lparr>rooms := (rooms rm)(''R'' \<mapsto>
            r\<lparr>pendingSpectators :=
                 map (\<lambda>t. \<lparr>sp_token = t, sp_socketId = t, sp_name = None, sp_avatar = None\<rparr>)
                     [''a'', ''b'', ''c'', ''d'', ''e'', ''f'']\<rparr>)\<rparr>)"

definition twoPlayerRoom :: roomManager where
  "twoPlayerRoom =
     (let rm1 = fst (registerSocket newRoomManager ''h'' ''s0'');
          rm2 = fst (createRoom rm1 \<lparr>rd_id = Some ''R'', rd_name = None, rd_host = Some ''H'',
                                      rd_hostAvatar = None, rd_scenario = None, rd_wpp = None\<rparr>
                       ''s0'' ''h'' ''1'' 0);
          rm3 = fst (registerSocket rm2 ''g'' ''s1'')
      in fst (joinRoom rm3 ''R'' \<lparr>pd_name = Some ''G'', pd_avatar = None\<rparr> ''s1'' ''g''))"

section \<open>The server: strings and the dictionary index\<close>

text \<open>
  What the JavaScript engine and the process environment supply, and the repository does
  not define: the Unicode case mappings, the letter class \<open>\p{L}\<close> of the regular
  expression in \<open>isAllLetters\<close>, and \<open>SAMPLE_CAP\<close>. Every function below that depends on
  them takes them as the argument \<open>E\<close>.
\<close>

record env =
  toUpperCase :: "string \<Rightarrow> string"
  toLowerCase :: "string \<Rightarrow> string"
  isLetter :: "char \<Rightarrow> bool"
  SAMPLE_WORDS_CAP :: nat

text \<open>
  \<open>String.prototype.trim\<close>: the white space and line terminators of ECMAScript among the
  code units below 256.
\<close>

definition isWhiteSpace :: "char \<Rightarrow> bool" where
  "isWhiteSpace c = (c \<in> set [CHR 0x09, CHR 0x0A, CHR 0x0B, CHR 0x0C, CHR 0x0D, CHR 0x20, CHR 0xA0])"

definition trim :: "string \<Rightarrow> string" where
  "trim s = rev (dropWhile isWhiteSpace (rev (dropWhile isWhiteSpace s)))"

text \<open>\<open>s.substring(i, j)\<close> for \<open>0 \<le> i \<le> j\<close>.\<close>

definition substring :: "string \<Rightarrow> nat \<Rightarrow> nat \<Rightarrow> string" where
  "substring s i j = take (j - i) (drop i s)"

text \<open>\<open>s.split(c)\<close> on a one-character separator.\<close>

fun split :: "char \<Rightarrow> string \<Rightarrow> string list" where
  "split c [] = [[]]"
| "split c (x # xs) =
     (if x = c then [] # split c xs
      else (case split c xs of p # ps \<Rightarrow> (x # p) # ps | [] \<Rightarrow> [[x]]))"

text \<open>\<open>w.includes(q)\<close>: \<open>q\<close> occurs in \<open>w\<close> at some position.\<close>

fun includesStr :: "string \<Rightarrow> string \<Rightarrow> bool" where
  "includesStr [] q = (q = [])"
| "includesStr (x # xs) q = (take (length q) (x # xs) = q \<or> includesStr xs q)"

definition escapeHtml :: "string \<Rightarrow> string" where
  "escapeHtml str =
     (let r1 = concat (map (\<lambda>c. if c = CHR ''&'' then ''&amp;'' else [c]) str);
          r2 = concat (map (\<lambda>c. if c = CHR ''<'' then ''&lt;'' else [c]) r1);
          r3 = concat (map (\<lambda>c. if c = CHR ''>'' then ''&gt;'' else [c]) r2);
          r4 = concat (map (\<lambda>c. if c = CHR 0x22 then ''&quot;'' else [c]) r3)
      in concat (map (\<lambda>c. if c = CHR 0x27 then ''&#x27;'' else [c]) r4))"

definition LENGTHS :: "nat list" where
  "LENGTHS = [2, 3, 4]"

text \<open>
  A \<open>Map\<close> or a plain object used as a dictionary: the entries in insertion order.
  \<open>mapSet\<close> overwrites in place or appends, as \<open>Map.prototype.set\<close> does. A \<open>Set\<close>
  whose order can be observed is the list of its elements in insertion order.
\<close>

fun mapSet :: "'k \<Rightarrow> 'v \<Rightarrow> ('k \<times> 'v) list \<Rightarrow> ('k \<times> 'v) list" where
  "mapSet k v [] = [(k, v)]"
| "mapSet k v ((k', v') # m) = (if k' = k then (k, v) # m else (k', v') # mapSet k v m)"

definition mapGet :: "('k \<times> 'v) list \<Rightarrow> 'k \<Rightarrow> 'v option" where
  "mapGet m k = map_of m k"

definition setAdd :: "'a \<Rightarrow> 'a list \<Rightarrow> 'a list" where
  "setAdd x xs = (if x \<in> set xs then xs else xs @ [x])"

datatype readyMsg = Initializing | StartingBuild | Ready | BuildError

text \<open>
  The module state of the index. \<open>syllableCounts[L]\<close> is a \<open>Map\<close> for \<open>L\<close> in \<open>LENGTHS\<close>
  and absent otherwise; every reader treats an absent map as an empty one, so it is a
  total function here. The keys \<open>`${L}:${syl}`\<close> of \<open>wordsBySyll\<close> are the pairs
  \<open>(L, syl)\<close>. \<open>dictionarySet\<close> is \<open>null\<close> until the first build.
\<close>

record dictIndex =
  ready :: bool
  readyMessage :: readyMsg
  syllableCounts :: "nat \<Rightarrow> (string \<times> nat) list"
  wordsBySyll :: "((nat \<times> string) \<times> string list) list"
  dictionarySet :: "32 word set option"

definition initialIndex :: dictIndex where
  "initialIndex = \<lparr>ready = False, readyMessage = Initializing, syllableCounts = (\<lambda>L. []),
                    wordsBySyll = [], dictionarySet = None\<rparr>"

text \<open>
  \<open>hashWord\<close>: \<open>h ^= c\<close> leaves a signed 32-bit integer; \<open>h * 0x01000193\<close> is a product
  of doubles, which is rounded to 53 significant bits (to nearest, ties to even) when it
  does not fit; \<open>>>> 0\<close> reduces the result modulo \<open>2^32\<close>.
\<close>

fun bitLength :: "nat \<Rightarrow> nat" where
  "bitLength n = (if n = 0 then 0 else Suc (bitLength (n div 2)))"

definition roundDouble :: "int \<Rightarrow> int" where
  "roundDouble x =
     (let n = nat \<bar>x\<bar> in
      if n < 2 ^ 53 then x
      else (let e = bitLength n - 53;
                q = n div 2 ^ e;
                r = n mod 2 ^ e;
                q' = (if 2 * r > 2 ^ e \<or> (2 * r = 2 ^ e \<and> odd q) then q + 1 else q)
            in sgn x * int (q' * 2 ^ e)))"

definition hashStep :: "32 word \<Rightarrow> char \<Rightarrow> 32 word" where
  "hashStep h c = word_of_int (roundDouble (sint (h XOR of_char c) * 0x01000193))"

definition hashWord :: "string \<Rightarrow> 32 word" where
  "hashWord str = foldl hashStep 0x811c9dc5 str"

definition dictHas :: "dictIndex \<Rightarrow> string \<Rightarrow> bool" where
  "dictHas idx w = (case dictionarySet idx of None \<Rightarrow> False | Some d \<Rightarrow> hashWord w \<in> d)"

definition getSyllableCount :: "env \<Rightarrow> dictIndex \<Rightarrow> string option \<Rightarrow> nat option" where
  "getSyllableCount E idx syl =
     (if \<not> truthyS syl then None
      else (case mapGet (syllableCounts idx (length (the syl))) (toUpperCase E (the syl)) of
              None \<Rightarrow> None
            | Some c \<Rightarrow> if c = 0 then None else Some c))"

definition normalizeWord :: "env \<Rightarrow> string \<Rightarrow> string" where
  "normalizeWord E raw = (if raw = [] then [] else toUpperCase E (trim raw))"

definition wordParts :: "string \<Rightarrow> string list" where
  "wordParts w = filter (\<lambda>p. p \<noteq> []) (split CHR ''-'' w)"

definition isAllLetters :: "env \<Rightarrow> string \<Rightarrow> bool" where
  "isAllLetters E s = (s \<noteq> [] \<and> list_all (isLetter E) s)"

text \<open>
  The scan of one part for one length:
  \<open>for (i = 0; i <= part.length - L; i++) { syl = part.substring(i, i + L); ... }\<close>.
\<close>

definition scanPartL :: "env \<Rightarrow> string \<Rightarrow> nat \<Rightarrow> string list \<Rightarrow> string list" where
  "scanPartL E part L seen =
     (if length part < L then seen
      else fold (\<lambda>i seen. let syl = substring part i (i + L)
                           in if \<not> isAllLetters E syl then seen else setAdd syl seen)
                [0 ..< length part - L + 1] seen)"

definition scanPart :: "env \<Rightarrow> string \<Rightarrow> (nat \<Rightarrow> string list) \<Rightarrow> (nat \<Rightarrow> string list)" where
  "scanPart E part seenSylsInWord =
     fold (\<lambda>L seen. seen(L := scanPartL E part L (seen L))) LENGTHS seenSylsInWord"

definition seenSyls :: "env \<Rightarrow> string list \<Rightarrow> (nat \<Rightarrow> string list)" where
  "seenSyls E parts = fold (scanPart E) parts (\<lambda>L. [])"

text \<open>The body of the second loop, for one syllable found in the word.\<close>

definition countSyl :: "env \<Rightarrow> string \<Rightarrow> nat \<Rightarrow> string \<Rightarrow> dictIndex \<Rightarrow> dictIndex" where
  "countSyl E word L syl idx =
     (let m = syllableCounts idx L;
          m' = mapSet syl ((case mapGet m syl of None \<Rightarrow> 0 | Some c \<Rightarrow> c) + 1) m;
          key = (L, syl);
          ws = (case mapGet (wordsBySyll idx) key of None \<Rightarrow> [] | Some l \<Rightarrow> l);
          ws' = (if length ws < SAMPLE_WORDS_CAP E then ws @ [word] else ws)
      in idx\<lparr>syllableCounts := (syllableCounts idx)(L := m'),
              wordsBySyll := mapSet key ws' (wordsBySyll idx)\<rparr>)"

text \<open>
  The handler of a \<open>line\<close> event, on the index and the counter \<open>linesProcessed\<close>. It runs
  after \<open>dictionarySet = new Set()\<close>.
\<close>

definition onLine :: "env \<Rightarrow> string \<Rightarrow> dictIndex \<times> nat \<Rightarrow> dictIndex \<times> nat" where
  "onLine E line st =
     (let (idx, linesProcessed) = st;
          word = normalizeWord E line
      in if word = [] then st
         else
           (let idx1 = idx\<lparr>dictionarySet :=
                              Some (insert (hashWord word)
                                      (case dictionarySet idx of None \<Rightarrow> {} | Some d \<Rightarrow> d))\<rparr>;
                seen = seenSyls E (wordParts word);
                idx2 = fold (\<lambda>L idx. fold (countSyl E word L) (seen L) idx) LENGTHS idx1
            in (idx2, linesProcessed + 1)))"

text \<open>
  The dictionary file as \<open>buildStatsFromDictionary\<close> meets it: absent, read to its end
  as a list of lines, or read up to an \<open>error\<close> event of the line reader.
\<close>

datatype dictFile = Absent | Lines "string list" | LinesThenError "string list"

datatype buildError = NotFound | ReadError

definition buildStatsFromDictionary :: "env \<Rightarrow> dictIndex \<Rightarrow> dictFile \<Rightarrow> dictIndex \<times> (buildError + nat)" where
  "buildStatsFromDictionary E idx file =
     (case file of
        Absent \<Rightarrow> (idx, Inl NotFound)
      | Lines ls \<Rightarrow>
          (let (idx', n) = fold (onLine E) ls (idx\<lparr>dictionarySet := Some {}\<rparr>, 0)
           in (idx', Inr n))
      | LinesThenError ls \<Rightarrow>
          (let (idx', n) = fold (onLine E) ls (idx\<lparr>dictionarySet := Some {}\<rparr>, 0)
           in (idx', Inl ReadError)))"

definition prepare :: "env \<Rightarrow> dictIndex \<Rightarrow> dictFile \<Rightarrow> dictIndex" where
  "prepare E idx file =
     (let idx0 = idx\<lparr>ready := False, readyMessage := StartingBuild,
                      syllableCounts := fold (\<lambda>L sc. sc(L := [])) LENGTHS (syllableCounts idx),
                      wordsBySyll := [],
                      dictionarySet := Some {}\<rparr>
      in case buildStatsFromDictionary E idx0 file of
           (idx1, Inr linesProcessed) \<Rightarrow> idx1\<lparr>ready := True, readyMessage := Ready\<rparr>
         | (idx1, Inl err) \<Rightarrow> idx1\<lparr>ready := False, readyMessage := BuildError\<rparr>)"

text \<open>The lookup of \<open>/words-by-syllable\<close>: \<open>(wordsBySyll[key] || []).slice(0, limit)\<close>.\<close>

definition wordsFor :: "dictIndex \<Rightarrow> nat \<Rightarrow> string \<Rightarrow> nat \<Rightarrow> string list" where
  "wordsFor idx L syl limit =
     take limit (case mapGet (wordsBySyll idx) (L, syl) of None \<Rightarrow> [] | Some l \<Rightarrow> l)"

text \<open>An environment for ASCII text, used to run the model on examples.\<close>

definition asciiUpper :: "char \<Rightarrow> char" where
  "asciiUpper c =
     (case map_of (zip ''abcdefghijklmnopqrstuvwxyz'' ''ABCDEFGHIJKLMNOPQRSTUVWXYZ'') c of
        Some u \<Rightarrow> u | None \<Rightarrow> c)"

definition asciiLower :: "char \<Rightarrow> char" where
  "asciiLower c =
     (case map_of (zip ''ABCDEFGHIJKLMNOPQRSTUVWXYZ'' ''abcdefghijklmnopqrstuvwxyz'') c of
        Some u \<Rightarrow> u | None \<Rightarrow> c)"

definition asciiEnv :: env where
  "asciiEnv = \<lparr>toUpperCase = map asciiUpper, toLowerCase = map asciiLower,
                isLetter = (\<lambda>c. c \<in> set ''ABCDEFGHIJKLMNOPQRSTUVWXYZabcdefghijklmnopqrstuvwxyz''),
                SAMPLE_WORDS_CAP = 30\<rparr>"

subsection \<open>Properties of the index\<close>

text \<open>
  The count stored for a syllable, as \<open>syllableCounts[L].get(s)\<close> returns it
  (\<open>None\<close> for \<open>undefined\<close>).
\<close>

definition storedCount :: "dictIndex \<Rightarrow> nat \<Rightarrow> string \<Rightarrow> nat option" where
  "storedCount idx L s = mapGet (syllableCounts idx L) s"

text \<open>
  The words of a dictionary file: its lines, normalized, without the empty ones. A word
  contains the syllable \<open>s\<close> when \<open>s\<close> consists of letters and is a contiguous piece of
  one of the parts between hyphens.
\<close>

definition dictWords :: "env \<Rightarrow> string list \<Rightarrow> string list" where
  "dictWords E ls = filter (\<lambda>w. w \<noteq> []) (map (normalizeWord E) ls)"

definition containsSyllable :: "env \<Rightarrow> string \<Rightarrow> string \<Rightarrow> bool" where
  "containsSyllable E s w = (isAllLetters E s \<and> (\<exists>part \<in> set (wordParts w). sublist s part))"

text \<open>The number of lines whose word contains \<open>s\<close>, and the number of distinct such words.\<close>

definition linesContaining :: "env \<Rightarrow> string list \<Rightarrow> string \<Rightarrow> nat" where
  "linesContaining E ls s = length (filter (containsSyllable E s) (dictWords E ls))"

definition distinctWordsContaining :: "env \<Rightarrow> string list \<Rightarrow> string \<Rightarrow> nat" where
  "distinctWordsContaining E ls s = card {w \<in> set (dictWords E ls). containsSyllable E s w}"

text \<open>
  An index without content: the three count maps empty, no sample list, an empty
  membership set.
\<close>

definition emptyIndex :: "dictIndex \<Rightarrow> bool" where
  "emptyIndex idx =
     ((\<forall>L \<in> set LENGTHS. syllableCounts idx L = []) \<and> wordsBySyll idx = []
      \<and> dictionarySet idx = Some {})"

text \<open>
  The count of \<open>s\<close> read with \<open>map.get(s) || 0\<close>, as the builder reads it.
\<close>

definition countOf :: "dictIndex \<Rightarrow> nat \<Rightarrow> string \<Rightarrow> nat" where
  "countOf idx L s = (case mapGet (syllableCounts idx L) s of None \<Rightarrow> 0 | Some c \<Rightarrow> c)"

definition posAt :: "dictIndex \<Rightarrow> nat \<Rightarrow> bool" where
  "posAt idx L = (\<forall>s c. mapGet (syllableCounts idx L) s = Some c \<longrightarrow> 0 < c)"

text \<open>The index built from the single word \<open>RE\<close>.\<close>

definition indexRE :: dictIndex where
  "indexRE = prepare asciiEnv initialIndex (Lines [''RE''])"

text \<open>
  The effect of one word on the count map of one length: each syllable seen in the word
  gains one.
\<close>

definition bumpAll :: "(string \<times> nat) list \<Rightarrow> string list \<Rightarrow> (string \<times> nat) list" where
  "bumpAll m syls =
     fold (\<lambda>syl m. mapSet syl ((case mapGet m syl of None \<Rightarrow> 0 | Some c \<Rightarrow> c) + 1) m) syls m"

definition countLine :: "env \<Rightarrow> nat \<Rightarrow> string \<Rightarrow> (string \<times> nat) list \<Rightarrow> (string \<times> nat) list" where
  "countLine E L line m =
     (if normalizeWord E line = [] then m
      else bumpAll m (seenSyls E (wordParts (normalizeWord E line)) L))"

section \<open>The server: rounds, timers and socket events\<close>

text \<open>
  What the server sends. \<open>socket.emit\<close> goes to the calling socket, \<open>io.to(roomId).emit\<close>
  to a room. The payloads carry the fields of the objects sent; the \<open>id\<close> of a chat
  message (clock plus a random fraction) is left out.
\<close>

datatype target = ToSocket string | ToRoom string

datatype rejectReason =
    TropRapide | PasVotreTour | MotVide | NeContientPas string | NonDansDictionnaire

datatype chatType = BotMessage | PlayerMessage

datatype payload =
    WordRejected string rejectReason
  | WordRejectedInRoom "string option" string string rejectReason
  | WordAccepted "string option" string string int
  | TurnChanged nat "player option"
  | SyllableUpdate string nat "player option" nat "nat option"
  | GamePaused "string option" int int
  | GameResumed int int "string option" nat "player option" nat
  | ChatMessage string string string int chatType string "string option" "string option"

text \<open>
  The state of the server process that the handlers below touch: the room manager, the
  dictionary index, the \<open>wordSubmissions\<close> map of the rate limiter, and the messages
  sent so far, oldest first.
\<close>

record server =
  roomManager :: roomManager
  index :: dictIndex
  wordSubmissions :: "string \<rightharpoonup> int list"
  emitted :: "(target \<times> payload) list"

definition emit :: "target \<Rightarrow> payload \<Rightarrow> server \<Rightarrow> server" where
  "emit t p s = s\<lparr>emitted := emitted s @ [(t, p)]\<rparr>"

definition putRoom :: "string \<Rightarrow> room \<Rightarrow> server \<Rightarrow> server" where
  "putRoom roomId r s =
     s\<lparr>roomManager := (roomManager s)\<lparr>rooms := (rooms (roomManager s))(roomId \<mapsto> r)\<rparr>\<rparr>"

text \<open>
  \<open>pickServerSyllable\<close>. \<open>u1\<close> and \<open>u2\<close> are the values of its first and second call of
  \<open>Math.random()\<close>, numbers in \<open>[0, 1)\<close>; doubles are taken as reals.
  \<open>Math.floor(Math.random() * n)\<close> is \<open>randIndex u n\<close>. The function returns the syllable
  and leaves \<open>usedSyllables\<close> as it is or cleared: the second component.
\<close>

definition ALL_LENGTHS :: "nat list" where
  "ALL_LENGTHS = [2, 3, 4]"

definition randIndex :: "real \<Rightarrow> nat \<Rightarrow> nat" where
  "randIndex u n = nat \<lfloor>u * real n\<rfloor>"

definition scenarioKey :: "env \<Rightarrow> string option \<Rightarrow> string" where
  "scenarioKey E sc = (if truthyS sc then toLowerCase E (trim (the sc)) else [])"

definition allowedLengths :: "env \<Rightarrow> string option \<Rightarrow> nat list" where
  "allowedLengths E sc =
     (if scenarioKey E sc = ''4 lettres'' then [4]
      else if scenarioKey E sc = ''sub8'' \<or> scenarioKey E sc = ''sub50'' then [2, 3]
      else [2, 3])"

definition countFilter :: "env \<Rightarrow> string option \<Rightarrow> (nat \<Rightarrow> bool) option" where
  "countFilter E sc =
     (if truthyS sc then
        (if scenarioKey E sc = ''sub8'' then Some (\<lambda>c. c \<le> 8)
         else if scenarioKey E sc = ''sub50'' then Some (\<lambda>c. c \<le> 50)
         else None)
      else None)"

fun weightedWalk :: "real \<Rightarrow> (string \<times> real) list \<Rightarrow> string option" where
  "weightedWalk r [] = None"
| "weightedWalk r ((syl, w) # es) = (if r < w then Some syl else weightedWalk (r - w) es)"

definition pickServerSyllable ::
  "env \<Rightarrow> dictIndex \<Rightarrow> real \<Rightarrow> real \<Rightarrow> string set \<Rightarrow> string option \<Rightarrow> string \<times> string set" where
  "pickServerSyllable E idx u1 u2 used sc =
     (let availableLengths = filter (\<lambda>L. syllableCounts idx L \<noteq> []) (allowedLengths E sc)
      in if availableLengths = [] then
           (case filter (\<lambda>fl. syllableCounts idx fl \<noteq> []) ALL_LENGTHS of
              fl # rest \<Rightarrow>
                (let keys = map fst (syllableCounts idx fl)
                 in (keys ! randIndex u1 (length keys), used))
            | [] \<Rightarrow> (''RE'', used))
         else
           (let cf = countFilter E sc;
                L = availableLengths ! randIndex u1 (length availableLengths);
                m = syllableCounts idx L;
                entries0 = filter (\<lambda>(s, c). s \<notin> used) m;
                entries1 = (case cf of None \<Rightarrow> entries0
                            | Some f \<Rightarrow> filter (\<lambda>(s, c). f c) entries0);
                reset = (entries1 = [] \<and> cf \<noteq> None);
                used' = (if reset then {} else used);
                entries2 = (if reset then filter (\<lambda>(s, c). the cf c) m else entries1);
                entries = (if entries2 = [] then m else entries2)
            in case cf of
                 None \<Rightarrow>
                   (let weighted = map (\<lambda>(syl, cnt). (syl, sqrt (real cnt))) entries;
                        totalWeight = sum_list (map snd weighted);
                        r = u2 * totalWeight
                    in (case weightedWalk r weighted of
                          Some syl \<Rightarrow> syl
                        | None \<Rightarrow> fst (last weighted), used'))
               | Some f \<Rightarrow> (fst (entries ! randIndex u2 (length entries)), used')))"

text \<open>
  \<open>startRoomTimer(roomId, durationMs)\<close> at clock value \<open>now\<close>. The ticks of the interval
  run later, as events of their own.
\<close>

definition startRoomTimer :: "string \<Rightarrow> int \<Rightarrow> int \<Rightarrow> server \<Rightarrow> server" where
  "startRoomTimer roomId durationMs now s =
     (case getRoom (roomManager s) roomId of
        None \<Rightarrow> s
      | Some r \<Rightarrow>
          (let g = game r;
               effectiveDuration = (case pausedRemaining g of
                                      Some pr \<Rightarrow> if pr > 0 then pr else durationMs
                                    | None \<Rightarrow> durationMs);
               endTime = now + effectiveDuration
           in putRoom roomId
                (r\<lparr>game := g\<lparr>pausedRemaining := None, timerTotal := Some durationMs,
                               timer := Some \<lparr>tm_endTime = endTime, tm_total = durationMs\<rparr>,
                               timerEndTime := Some endTime\<rparr>\<rparr>) s))"

text \<open>\<open>room.game.timerTotal || 8000\<close>\<close>

definition totalOr8000 :: "roomGame \<Rightarrow> int" where
  "totalOr8000 g = (case timerTotal g of None \<Rightarrow> 8000 | Some t \<Rightarrow> if t = 0 then 8000 else t)"

text \<open>\<open>room.players[i] || room.players[0]\<close>\<close>

definition playerOrFirst :: "player list \<Rightarrow> nat \<Rightarrow> player option" where
  "playerOrFirst ps i =
     (if i < length ps then Some (ps ! i) else (case ps of [] \<Rightarrow> None | p # rest \<Rightarrow> Some p))"

text \<open>
  \<open>pauseRoomGame(roomId, reason)\<close>. In the payload of \<open>gamePaused\<close>, \<open>None\<close> stands for
  the default text that replaces a missing reason.
\<close>

definition pauseRoomGame :: "string \<Rightarrow> string option \<Rightarrow> int \<Rightarrow> server \<Rightarrow> server" where
  "pauseRoomGame roomId reason now s =
     (case getRoom (roomManager s) roomId of
        None \<Rightarrow> s
      | Some r \<Rightarrow>
          if gameState r \<noteq> Playing \<or> paused (game r) then s
          else
            (let g = game r;
                 remaining = (case timerEndTime g of
                                None \<Rightarrow> 0
                              | Some e \<Rightarrow> if e = 0 then 0 else max 0 (e - now))
             in emit (ToRoom roomId)
                  (GamePaused (orNullS reason) remaining (totalOr8000 g))
                  (putRoom roomId
                     (r\<lparr>game := g\<lparr>paused := True, pausedRemaining := Some remaining,
                                    pausedAt := Some now\<rparr>\<rparr>) s)))"

definition resumeRoomGame :: "string \<Rightarrow> int \<Rightarrow> server \<Rightarrow> server" where
  "resumeRoomGame roomId now s =
     (case getRoom (roomManager s) roomId of
        None \<Rightarrow> s
      | Some r \<Rightarrow>
          if gameState r \<noteq> Playing \<or> \<not> paused (game r) then s
          else
            (let g = game r;
                 remaining = (case pausedRemaining g of
                                None \<Rightarrow> 3000
                              | Some pr \<Rightarrow> if pr = 0 then 3000 else pr);
                 endTime = now + remaining
             in putRoom roomId
                  (r\<lparr>game := g\<lparr>paused := False, pausedRemaining := None,
                                 timer := Some \<lparr>tm_endTime = endTime, tm_total = totalOr8000 g\<rparr>,
                                 timerEndTime := Some endTime\<rparr>\<rparr>)
                  (emit (ToRoom roomId)
                     (GameResumed remaining (totalOr8000 g) (currentSyllable g)
                        (currentPlayerIndex g)
                        (playerOrFirst (players r) (currentPlayerIndex g)) (roundNumber g))
                     s)))"

text \<open>
  The loop of \<open>advanceToNextAlivePlayer\<close>: it leaves on a player that can play, or by
  \<open>break\<close> once \<open>attempts\<close> exceeds the number of players.
\<close>

definition cannotPlay :: "player \<Rightarrow> bool" where
  "cannotPlay p = (\<not> isAlive p \<or> lives p \<le> 0 \<or> disconnected p)"

function advanceLoop :: "player list \<Rightarrow> nat \<Rightarrow> nat \<Rightarrow> nat" where
  "advanceLoop ps next attempts =
     (if cannotPlay (ps ! next) then
        (if attempts + 1 > length ps then (next + 1) mod length ps
         else advanceLoop ps ((next + 1) mod length ps) (attempts + 1))
      else next)"
  by pat_completeness auto
termination
  by (relation "measure (\<lambda>(ps, next, attempts). length ps + 1 - attempts)") auto

definition advanceToNextAlivePlayer :: "string \<Rightarrow> server \<Rightarrow> server" where
  "advanceToNextAlivePlayer roomId s =
     (case getRoom (roomManager s) roomId of
        None \<Rightarrow> s
      | Some r \<Rightarrow>
          if gameState r \<noteq> Playing then s
          else if filter (\<lambda>p. isAlive p \<and> lives p > 0 \<and> \<not> disconnected p) (players r) = [] then s
          else
            (let next = advanceLoop (players r)
                          ((currentPlayerIndex (game r) + 1) mod length (players r)) 0
             in emit (ToRoom roomId) (TurnChanged next (Some (players r ! next)))
                  (putRoom roomId (r\<lparr>game := (game r)\<lparr>currentPlayerIndex := next\<rparr>\<rparr>) s)))"

text \<open>
  What a handler that starts a round reads from its environment, in the order of the
  calls: the clock in the handler, the two random numbers of \<open>pickServerSyllable\<close>, the
  clock in \<open>startNextRound\<close> and the clock in \<open>startRoomTimer\<close>.
\<close>

record reads =
  rd_now :: int
  rd_u1 :: real
  rd_u2 :: real
  rd_round :: int
  rd_timer :: int

definition startNextRound :: "env \<Rightarrow> reads \<Rightarrow> string \<Rightarrow> server \<Rightarrow> server" where
  "startNextRound E rd roomId s =
     (case getRoom (roomManager s) roomId of
        None \<Rightarrow> s
      | Some r \<Rightarrow>
          if gameState r \<noteq> Playing then s
          else
            (let sc = orNullS (scenario (settings r));
                 (newSyl, used') = pickServerSyllable E (index s) (rd_u1 rd) (rd_u2 rd)
                                     (usedSyllables (game r)) sc;
                 g' = (game r)\<lparr>usedSyllables := insert newSyl used',
                                 currentSyllable := Some newSyl,
                                 roundNumber := roundNumber (game r) + 1,
                                 serverControlledUntil := Some (rd_round rd + 3000)\<rparr>;
                 defaultTimerMs = (8 + max 0 (case extraTurnSeconds (settings r) of
                                                None \<Rightarrow> 0 | Some x \<Rightarrow> x)) * 1000
             in startRoomTimer roomId defaultTimerMs (rd_timer rd)
                  (emit (ToRoom roomId)
                     (SyllableUpdate newSyl (currentPlayerIndex g')
                        (playerOrFirst (players r) (currentPlayerIndex g')) (roundNumber g')
                        (getSyllableCount E (index s) (Some newSyl)))
                     (putRoom roomId (r\<lparr>game := g'\<rparr>) s))))"

text \<open>
  The handler of \<open>submitWord\<close> on the socket \<open>sid\<close>, whose \<open>getToken()\<close> is \<open>tok\<close>. The
  payload is \<open>{ roomId, word, syllable }\<close>.
\<close>

record submitPayload =
  sw_roomId :: string
  sw_word :: "string option"
  sw_syllable :: "string option"

definition submitWord :: "env \<Rightarrow> reads \<Rightarrow> string \<Rightarrow> string option \<Rightarrow> submitPayload \<Rightarrow> server \<Rightarrow> server" where
  "submitWord E rd sid tok pl s =
     (let roomId = sw_roomId pl in
      case getRoom (roomManager s) roomId of
        None \<Rightarrow> s
      | Some r \<Rightarrow>
          if gameState r \<noteq> Playing then s
          else
            (case find (\<lambda>p. Some (p_token p) = tok) (players r) of
               None \<Rightarrow> s
             | Some pl0 \<Rightarrow>
                 if \<not> isAlive pl0 then s
                 else
                   (let token = the tok;
                        now = rd_now rd;
                        old = (case wordSubmissions s token of None \<Rightarrow> [] | Some l \<Rightarrow> l);
                        s1 = s\<lparr>wordSubmissions := (wordSubmissions s)(token \<mapsto> old)\<rparr>;
                        subs = filter (\<lambda>t. now - t < 800) old
                    in if subs \<noteq> [] then emit (ToSocket sid) (WordRejected sid TropRapide) s1
                       else
                         (let s2 = s1\<lparr>wordSubmissions := (wordSubmissions s1)(token \<mapsto> subs @ [now])\<rparr>;
                              cur = players r ! (currentPlayerIndex (game r) mod length (players r));
                              isHostCaller = isHostOf (roomManager s2) roomId token;
                              isBotTurn = (isHostCaller
                                           \<and> \<not> list_ex (\<lambda>p. p_token p = p_token cur) (players r))
                          in if p_token cur \<noteq> token \<and> \<not> isBotTurn then
                               emit (ToSocket sid) (WordRejected sid PasVotreTour) s2
                             else
                               (let r1 = r\<lparr>players := updFirst (\<lambda>p. Some (p_token p) = tok)
                                                           (\<lambda>p. p\<lparr>p_socketId := sid\<rparr>) (players r)\<rparr>;
                                    s3 = putRoom roomId r1 s2;
                                    wordUpper = trim (toUpperCase E (orElseS (sw_word pl) []));
                                    sylUpper = trim (toUpperCase E
                                                 (orElseS (currentSyllable (game r1)) []))
                                in if wordUpper = [] then
                                     emit (ToSocket sid) (WordRejected sid MotVide) s3
                                   else if sylUpper \<noteq> [] \<and> \<not> includesStr wordUpper sylUpper then
                                     emit (ToSocket sid) (WordRejected sid (NeContientPas sylUpper)) s3
                                   else if dictHas (index s3) wordUpper then
                                     (let r2 = r1\<lparr>game := (game r1)\<lparr>timer := None\<rparr>,
                                                   players := updFirst (\<lambda>p. Some (p_token p) = tok)
                                                                (\<lambda>p. p\<lparr>wordsFound := wordsFound p + 1\<rparr>)
                                                                (players r1)\<rparr>;
                                          s4 = emit (ToRoom roomId)
                                                 (WordAccepted (p_name pl0) sid wordUpper
                                                    (wordsFound pl0 + 1))
                                                 (putRoom roomId r2 s3)
                                      in startNextRound E rd roomId
                                           (advanceToNextAlivePlayer roomId s4))
                                   else
                                     emit (ToRoom roomId)
                                       (WordRejectedInRoom (p_name pl0) sid wordUpper
                                          NonDansDictionnaire) s3)))))"

text \<open>
  The handler of \<open>chatMessage\<close>. \<open>staffRoleOf\<close> is the lookup of an active staff account
  by its session token in the staff store; \<open>now\<close> is the clock.
\<close>

record chatPayload =
  cm_roomId :: string
  cm_message :: "string option"
  cm_playerName :: "string option"
  cm_avatar :: "string option"
  cm_replyTo :: "string option"
  cm_staffToken :: "string option"
  cm_isBot :: bool

definition startsWith :: "string \<Rightarrow> string \<Rightarrow> bool" where
  "startsWith s p = (take (length p) s = p)"

definition chatMessage ::
  "(string \<rightharpoonup> string) \<Rightarrow> int \<Rightarrow> string \<Rightarrow> string option \<Rightarrow> chatPayload \<Rightarrow> server \<Rightarrow> server" where
  "chatMessage staffRoleOf now sid tok pl s =
     (let roomId = cm_roomId pl in
      case getRoom (roomManager s) roomId of
        None \<Rightarrow> s
      | Some r \<Rightarrow>
          (let msg = substring (trim (orElseS (cm_message pl) [])) 0 300;
               safePlayerName = (if truthyS (cm_playerName pl)
                                 then substring (trim (the (cm_playerName pl))) 0 30 else []);
               safeAvatar = (if truthyS (cm_avatar pl)
                                \<and> (startsWith (the (cm_avatar pl)) ''data:image/''
                                     \<or> startsWith (the (cm_avatar pl)) ''https://'')
                             then the (cm_avatar pl) else [])
           in if msg = [] then s
              else if cm_isBot pl then
                (if tok = None \<or> \<not> isHostOf (roomManager s) roomId (the tok) then s
                 else emit (ToRoom roomId)
                        (ChatMessage ''TokiBot'' sid msg now BotMessage [] None None) s)
              else
                (let staffRole = (if truthyS (cm_staffToken pl)
                                  then staffRoleOf (the (cm_staffToken pl)) else None)
                 in emit (ToRoom roomId)
                      (ChatMessage safePlayerName sid msg now PlayerMessage safeAvatar
                         (orNullS (cm_replyTo pl)) staffRole) s)))"

text \<open>
  The handler of \<open>disconnect\<close> on the socket \<open>sid\<close>, whose \<open>getToken()\<close> is \<open>tok\<close>, at the
  clock value \<open>now\<close>, up to the point where it arms its grace timer; the callbacks of the
  timers run later, as events of their own. The map \<open>connectedUsers\<close> is not part of the
  state. The handler starts with \<open>wordSubmissions.delete(token)\<close>; the keys of that map are
  tokens of players, which are strings, so that for a socket without a token nothing is
  deleted.
\<close>

definition disconnect :: "int \<Rightarrow> string \<Rightarrow> string option \<Rightarrow> server \<Rightarrow> server" where
  "disconnect now sid tok s =
     (case tok of
        None \<Rightarrow> s
      | Some token \<Rightarrow>
          (let s1 = s\<lparr>wordSubmissions := (wordSubmissions s)(token := None)\<rparr>;
               rm1 = fst (unregisterSocket (roomManager s1) sid);
               s2 = s1\<lparr>roomManager := rm1\<rparr>
           in case sessions rm1 token of
                None \<Rightarrow> s2
              | Some sess \<Rightarrow>
                  if truthyS (s_roomId sess) then
                    (case getRoom rm1 (the (s_roomId sess)) of
                       None \<Rightarrow> s2
                     | Some r \<Rightarrow>
                         s2\<lparr>roomManager :=
                              rm1\<lparr>sessions := (sessions rm1)
                                     (token \<mapsto> sess\<lparr>s_lastDisconnectTime := Some now\<rparr>)\<rparr>\<rparr>)
                  else s2))"

text \<open>
  The events that the server handles, one after the other. The map \<open>wordSubmissions\<close> is
  read and written by the handlers of \<open>submitWord\<close> and \<open>disconnect\<close> only: any other
  handler, timer callback or HTTP request is an event \<open>Other f\<close>, given by what it does
  to the rest of the state.
\<close>

datatype event =
    SubmitWord reads string "string option" submitPayload
  | Disconnect int string "string option"
  | Other "server \<Rightarrow> server"

fun handle :: "env \<Rightarrow> event \<Rightarrow> server \<Rightarrow> server" where
  "handle E (SubmitWord rd sid tok pl) s = submitWord E rd sid tok pl s"
| "handle E (Disconnect now sid tok) s = disconnect now sid tok s"
| "handle E (Other f) s = (f s)\<lparr>wordSubmissions := wordSubmissions s\<rparr>"

definition run :: "env \<Rightarrow> event list \<Rightarrow> server \<Rightarrow> server" where
  "run E evs s = fold (handle E) evs s"

subsection \<open>Example states of the server\<close>

text \<open>
  A room \<open>R\<close> with the host \<open>h\<close> and the guest \<open>g\<close>, the game started, on the index of
  the single word \<open>RE\<close>; then the same room with its turn timer armed at 1000 ms for
  8000 ms and paused at 8000 ms, one second before the end of the turn.
\<close>

definition demoServer :: server where
  "demoServer = \<lparr>roomManager = fst (startGame twoPlayerRoom ''R'' 1000), index = indexRE,
                  wordSubmissions = Map.empty, emitted = []\<rparr>"

definition pausedServer :: server where
  "pausedServer = pauseRoomGame ''R'' None 8000 (startRoomTimer ''R'' 8000 1000 demoServer)"

definition roomOf :: "server \<Rightarrow> string \<Rightarrow> room" where
  "roomOf s roomId = the (getRoom (roomManager s) roomId)"

subsection \<open>Properties of the rate limiter\<close>

text \<open>
  \<open>recordedAt s tok t\<close>: the rate limiter holds a submission of \<open>tok\<close> stamped \<open>t\<close>.
  \<open>canSubmit s roomId tok\<close>: the two guards that \<open>submitWord\<close> passes before the rate
  limiter, a playing room and a living player with this token in it.
  \<open>newEvents s s'\<close>: what was sent between the states \<open>s\<close> and \<open>s'\<close>.
\<close>

definition recordedAt :: "server \<Rightarrow> string \<Rightarrow> int \<Rightarrow> bool" where
  "recordedAt s tok t = (case wordSubmissions s tok of None \<Rightarrow> False | Some l \<Rightarrow> t \<in> set l)"

definition canSubmit :: "server \<Rightarrow> string \<Rightarrow> string \<Rightarrow> bool" where
  "canSubmit s roomId tok =
     (case getRoom (roomManager s) roomId of
        None \<Rightarrow> False
      | Some r \<Rightarrow>
          gameState r = Playing
          \<and> (case find (\<lambda>p. Some (p_token p) = Some tok) (players r) of
                None \<Rightarrow> False
              | Some p \<Rightarrow> isAlive p))"

definition newEvents :: "server \<Rightarrow> server \<Rightarrow> (target \<times> payload) list" where
  "newEvents s s' = drop (length (emitted s)) (emitted s')"

definition isWordAccepted :: "target \<times> payload \<Rightarrow> bool" where
  "isWordAccepted e = (case snd e of WordAccepted n sid w k \<Rightarrow> True | _ \<Rightarrow> False)"

definition rdA :: reads where
  "rdA = \<lparr>rd_now = 2000, rd_u1 = 0, rd_u2 = 0, rd_round = 2000, rd_timer = 2000\<rparr>"

definition rdB :: reads where
  "rdB = \<lparr>rd_now = 2100, rd_u1 = 0, rd_u2 = 0, rd_round = 2100, rd_timer = 2100\<rparr>"

definition submitRE :: submitPayload where
  "submitRE = \<lparr>sw_roomId = ''R'', sw_word = Some ''re'', sw_syllable = None\<rparr>"

definition submitElsewhere :: submitPayload where
  "submitElsewhere = \<lparr>sw_roomId = ''nowhere'', sw_word = Some ''re'', sw_syllable = None\<rparr>"

text \<open>
  Two submissions of the token \<open>h\<close>, 100 ms apart: one addressed to a room that does not
  exist followed by one to the room \<open>R\<close>, and the same two in the other order.
\<close>

definition afterElsewhere :: server where
  "afterElsewhere = submitWord asciiEnv rdA ''s0'' (Some ''h'') submitElsewhere demoServer"

definition afterElsewhereThenRE :: server where
  "afterElsewhereThenRE = submitWord asciiEnv rdB ''s0'' (Some ''h'') submitRE afterElsewhere"

definition afterRE :: server where
  "afterRE = submitWord asciiEnv rdA ''s0'' (Some ''h'') submitRE demoServer"

definition afterREThenElsewhere :: server where
  "afterREThenElsewhere = submitWord asciiEnv rdB ''s0'' (Some ''h'') submitElsewhere afterRE"


text \<open>
  The room \<open>R\<close> with the host \<open>h\<close> alone, the game started: after a word of \<open>h\<close> is
  accepted the turn comes back to \<open>h\<close>. Then a first submission of \<open>h\<close>, the socket \<open>s0\<close>
  of \<open>h\<close> disconnecting at 2050 ms and a new socket \<open>s2\<close> registering the token \<open>h\<close>, and a
  second submission of \<open>h\<close>, 100 ms after the first.
\<close>

definition soloRoom :: roomManager where
  "soloRoom =
     (let rm1 = fst (registerSocket newRoomManager ''h'' ''s0'')
      in fst (createRoom rm1 \<lparr>rd_id = Some ''R'', rd_name = None, rd_host = Some ''H'',
                               rd_hostAvatar = None, rd_scenario = None, rd_wpp = None\<rparr>
                ''s0'' ''h'' ''1'' 0))"

definition soloServer :: server where
  "soloServer = \<lparr>roomManager = fst (startGame soloRoom ''R'' 1000), index = indexRE,
                  wordSubmissions = Map.empty, emitted = []\<rparr>"

definition soloFirst :: server where
  "soloFirst = submitWord asciiEnv rdA ''s0'' (Some ''h'') submitRE soloServer"

definition reconnection :: "event list" where
  "reconnection =
     [Disconnect 2050 ''s0'' (Some ''h''),
      Other (\<lambda>s. s\<lparr>roomManager := fst (registerSocket (roomManager s) ''h'' ''s2'')\<rparr>)]"

definition soloBetween :: server where
  "soloBetween = run asciiEnv reconnection soloFirst"

definition soloSecond :: server where
  "soloSecond = submitWord asciiEnv rdB ''s2'' (Some ''h'') submitRE soloBetween"

text \<open>
  Between two submissions of \<open>h\<close> in the room of two players: a submission of the guest
  \<open>g\<close> and the disconnection of the socket of \<open>g\<close>.
\<close>

definition guestEvents :: "event list" where
  "guestEvents =
     [SubmitWord \<lparr>rd_now = 2050, rd_u1 = 0, rd_u2 = 0, rd_round = 2050, rd_timer = 2050\<rparr>
        ''s1'' (Some ''g'') submitRE,
      Disconnect 2060 ''s1'' (Some ''g'')]"

definition afterGuest :: server where
  "afterGuest = run asciiEnv guestEvents afterRE"

definition afterGuestThenRE :: server where
  "afterGuestThenRE = submitWord asciiEnv rdB ''s0'' (Some ''h'') submitRE afterGuest"

text \<open>
  \<open>limiterBusy s tok now\<close>: the rate limiter holds a submission of \<open>tok\<close> stamped less than
  800 ms before \<open>now\<close>. \<open>disconnects tok ev\<close>: the event is the disconnection of a socket
  that carries the token \<open>tok\<close>.
\<close>

definition limiterBusy :: "server \<Rightarrow> string \<Rightarrow> int \<Rightarrow> bool" where
  "limiterBusy s tok now =
     list_ex (\<lambda>t. now - t < 800) (case wordSubmissions s tok of None \<Rightarrow> [] | Some l \<Rightarrow> l)"

fun disconnects :: "string \<Rightarrow> event \<Rightarrow> bool" where
  "disconnects tok (Disconnect now sid t) = (t = Some tok)"
| "disconnects tok (SubmitWord rd sid t pl) = False"
| "disconnects tok (Other f) = False"

text \<open>
  Claim C6 as amended, for two submissions of one token and the events \<open>evs\<close> that the
  server handles between them. \<open>passes\<close>: the first submission passes the two guards and
  the rate limiter.
\<close>

definition rateLimited ::
  "env \<Rightarrow> reads \<Rightarrow> reads \<Rightarrow> string \<Rightarrow> string \<Rightarrow> string \<Rightarrow> submitPayload \<Rightarrow> submitPayload
     \<Rightarrow> event list \<Rightarrow> server \<Rightarrow> bool" where
  "rateLimited E rd1 rd2 sid1 sid2 tok pl1 pl2 evs s0 =
     (let s1 = submitWord E rd1 sid1 (Some tok) pl1 s0;
          sb = run E evs s1;
          s2 = submitWord E rd2 sid2 (Some tok) pl2 sb;
          passes = (canSubmit s0 (sw_roomId pl1) tok \<and> \<not> limiterBusy s0 tok (rd_now rd1))
      in (passes \<longrightarrow> wordSubmissions s1 = (wordSubmissions s0)(tok \<mapsto> [rd_now rd1]))
         \<and> (\<not> passes \<longrightarrow> wordSubmissions s1 = wordSubmissions s0)
         \<and> (list_ex isWordAccepted (newEvents s0 s1) \<longrightarrow> passes)
         \<and> (recordedAt s1 tok (rd_now rd1) \<and> rd_now rd2 - rd_now rd1 < 800
              \<and> \<not> list_ex (disconnects tok) evs \<longrightarrow>
               \<not> list_ex isWordAccepted (newEvents sb s2)
               \<and> (canSubmit sb (sw_roomId pl2) tok \<longrightarrow>
                    newEvents sb s2 = [(ToSocket sid2, WordRejected sid2 TropRapide)])
               \<and> (\<not> canSubmit sb (sw_roomId pl2) tok \<longrightarrow> newEvents sb s2 = [])))"

subsection \<open>Properties of the syllable choice\<close>

text \<open>In a \<open>Map\<close> every key occurs once.\<close>

definition wfIndex :: "dictIndex \<Rightarrow> bool" where
  "wfIndex idx = (\<forall>L. distinct (map fst (syllableCounts idx L)))"

text \<open>
  Claim C2 as amended, for one call of \<open>pickServerSyllable\<close> under a scenario with the
  count limit \<open>bound\<close>. \<open>L\<close> is the length the call draws among the lengths 2 and 3 that
  have data, \<open>cands\<close> the syllables of that length within the limit.
\<close>

definition scenarioDraw ::
  "env \<Rightarrow> dictIndex \<Rightarrow> real \<Rightarrow> real \<Rightarrow> string set \<Rightarrow> string option \<Rightarrow> nat \<Rightarrow> bool" where
  "scenarioDraw E idx u1 u2 used sc bound =
     (let avail = filter (\<lambda>L. syllableCounts idx L \<noteq> []) [2, 3];
          L = avail ! randIndex u1 (length avail);
          cands = filter (\<lambda>(s, c). c \<le> bound) (syllableCounts idx L);
          syl = fst (pickServerSyllable E idx u1 u2 used sc);
          used' = snd (pickServerSyllable E idx u1 u2 used sc)
      in L \<in> set avail
         \<and> (cands \<noteq> [] \<longrightarrow> (\<exists>c. storedCount idx L syl = Some c \<and> c \<le> bound))
         \<and> syl \<notin> used'
         \<and> (if list_all (\<lambda>(s, c). s \<in> used) cands
             then used' = {} \<and> (cands \<noteq> [] \<longrightarrow> syl \<in> fst ` set cands)
             else used' = used \<and> syl \<in> fst ` set cands))"

text \<open>What \<open>startNextRound\<close> does with the syllable chosen, in a playing room.\<close>

definition roundStored :: "env \<Rightarrow> reads \<Rightarrow> string \<Rightarrow> server \<Rightarrow> room \<Rightarrow> bool" where
  "roundStored E rd roomId s r =
     (let pick = pickServerSyllable E (index s) (rd_u1 rd) (rd_u2 rd) (usedSyllables (game r))
                   (orNullS (scenario (settings r)));
          g' = game (roomOf (startNextRound E rd roomId s) roomId)
      in currentSyllable g' = Some (fst pick)
         \<and> usedSyllables g' = insert (fst pick) (snd pick)
         \<and> (\<exists>i p n c. newEvents s (startNextRound E rd roomId s)
                        = [(ToRoom roomId, SyllableUpdate (fst pick) i p n c)]))"

text \<open>
  A dictionary with the word \<open>AB\<close> and nine lines \<open>XYZ\<close>: of the syllables of length 2,
  \<open>AB\<close> is in one word and \<open>XY\<close>, \<open>YZ\<close> in nine; the one syllable of length 3, \<open>XYZ\<close>,
  is in nine.
\<close>

definition indexMixed :: dictIndex where
  "indexMixed = prepare asciiEnv initialIndex
                  (Lines [''AB'', ''XYZ'', ''XYZ'', ''XYZ'', ''XYZ'', ''XYZ'', ''XYZ'', ''XYZ'',
                          ''XYZ'', ''XYZ''])"

text \<open>Two values of a room that the guards of \<open>submitWord\<close> cannot tell apart.\<close>

definition sameGuards :: "room \<Rightarrow> room \<Rightarrow> bool" where
  "sameGuards r r' =
     (gameState r' = gameState r
      \<and> map (\<lambda>p. (p_token p, isAlive p)) (players r') = map (\<lambda>p. (p_token p, isAlive p)) (players r))"
section \<open>Room manager: host invariant, registration, end of game\<close>

lemma hosts_cong:
  "map (\<lambda>p. (p_token p, isHost p)) xs = map (\<lambda>p. (p_token p, isHost p)) ys
   \<Longrightarrow> map p_token (filter isHost xs) = map p_token (filter isHost ys)"
proof (induction xs arbitrary: ys)
  case Nil then show ?case by simp
next
  case (Cons x xs)
  then obtain y ys' where ys: "ys = y # ys'" by (cases ys) auto
  with Cons show ?case by auto
qed

lemma sameMembership_hostOk: "sameMembership r r' \<Longrightarrow> hostOk r \<Longrightarrow> hostOk r'"
  unfolding sameMembership_def hostOk_def using hosts_cong by metis

lemma updFirst_membership:
  "(\<And>p. p_token (f p) = p_token p \<and> isHost (f p) = isHost p) \<Longrightarrow>
   map (\<lambda>p. (p_token p, isHost p)) (updFirst P f xs) = map (\<lambda>p. (p_token p, isHost p)) xs"
  by (induction xs) auto

lemma find_token_None: "find (\<lambda>p. p_token p = t) ps = None \<longleftrightarrow> t \<notin> p_token ` set ps"
  by (induction ps) auto

lemma hostOk_token_in: "hostOk r \<Longrightarrow> hostToken r \<in> p_token ` set (players r)"
proof -
  assume "hostOk r"
  then have "hostToken r \<in> set (map p_token (filter isHost (players r)))"
    by (simp add: hostOk_def)
  then show ?thesis by auto
qed

lemma createRoom_inv: "roomsInv rm \<Longrightarrow> roomsInv (fst (createRoom rm rd sid tok gid now))"
  by (auto simp: roomsInv_def createRoom_def Let_def hostOk_def orElseS_def generateId_def
           split: option.splits)

lemma joinRoom_inv: "roomsInv rm \<Longrightarrow> roomsInv (fst (joinRoom rm rid pd sid tok))"
proof -
  assume inv: "roomsInv rm"
  show ?thesis
  proof (cases "rooms rm rid")
    case None then show ?thesis using inv by (simp add: joinRoom_def)
  next
    case (Some r)
    with inv have ok: "hostOk r" and id: "r_id r = rid" and ne: "rid \<noteq> []" by (auto simp: roomsInv_def)
    have nohost: "find (\<lambda>p. p_token p = tok) (players r) = None \<Longrightarrow> hostToken r \<noteq> tok"
      using hostOk_token_in[OF ok] by (auto simp: find_token_None)
    have reconn: "hostOk (r\<lparr>players := updFirst (\<lambda>p. p_token p = tok) (\<lambda>p. p\<lparr>p_socketId := sid\<rparr>) (players r)\<rparr>)"
      by (rule sameMembership_hostOk[OF _ ok]) (simp add: sameMembership_def updFirst_membership)
    show ?thesis
      using inv Some ok id ne nohost reconn
      by (auto simp: joinRoom_def Let_def roomsInv_def hostOk_def split: option.splits)
  qed
qed

lemma filter_host_leave:
  "tok \<notin> set (map p_token (filter isHost ps)) \<Longrightarrow>
   filter isHost (filter (\<lambda>p. p_token p \<noteq> tok) ps) = filter isHost ps"
  by (induction ps) (auto split: if_splits)

lemma leaveRoom_inv: "roomsInv rm \<Longrightarrow> roomsInv (fst (leaveRoom rm tok now))"
proof -
  assume inv: "roomsInv rm"
  have filt: "\<And>r. hostOk r \<Longrightarrow> hostToken r \<noteq> tok \<Longrightarrow>
      map p_token (filter isHost (filter (\<lambda>p. p_token p \<noteq> tok) (players r))) = [hostToken r]"
  proof -
    fix r assume ok: "hostOk r" and ne: "hostToken r \<noteq> tok"
    from ok have e: "map p_token (filter isHost (players r)) = [hostToken r]"
      by (simp add: hostOk_def)
    have "tok \<notin> set (map p_token (filter isHost (players r)))"
      unfolding e using ne by simp
    from filter_host_leave[OF this]
    have "filter isHost (filter (\<lambda>p. p_token p \<noteq> tok) (players r)) = filter isHost (players r)" .
    then show "map p_token (filter isHost (filter (\<lambda>p. p_token p \<noteq> tok) (players r))) = [hostToken r]"
      using e by (simp only:)
  qed
  have filt2: "\<And>r. hostOk r \<Longrightarrow> hostToken r = tok \<Longrightarrow>
      filter isHost (filter (\<lambda>p. p_token p \<noteq> tok) (players r)) = []"
  proof -
    fix r assume ok: "hostOk r" and e: "hostToken r = tok"
    have "\<forall>p \<in> set (players r). isHost p \<longrightarrow> p_token p = tok"
    proof (intro ballI impI)
      fix p assume "p \<in> set (players r)" "isHost p"
      then have "p_token p \<in> set (map p_token (filter isHost (players r)))" by auto
      with ok e show "p_token p = tok" by (simp add: hostOk_def)
    qed
    then show "filter isHost (filter (\<lambda>p. p_token p \<noteq> tok) (players r)) = []"
      by (auto simp: filter_empty_conv)
  qed
  show ?thesis
  proof (cases "sessions rm tok")
    case None then show ?thesis using inv by (simp add: leaveRoom_def)
  next
    case (Some sess)
    show ?thesis
    proof (cases "truthyS (s_roomId sess)")
      case False then show ?thesis using inv Some by (simp add: leaveRoom_def roomsInv_def)
    next
      case True
      then obtain rid where rid: "s_roomId sess = Some rid" by (auto simp: truthyS_def split: option.splits)
      show ?thesis
      proof (cases "rooms rm rid")
        case None then show ?thesis using inv Some True rid by (simp add: leaveRoom_def roomsInv_def)
      next
        case (Some r)
        with inv have ok: "hostOk r" and id: "r_id r = rid" and ne: "rid \<noteq> []" by (auto simp: roomsInv_def)
        define ps where "ps = filter (\<lambda>p. p_token p \<noteq> tok) (players r)"
        note base = \<open>sessions rm tok = Some sess\<close> True rid Some id ne
        show ?thesis
        proof (cases ps)
          case Nil
          then show ?thesis using inv base
            by (auto simp: leaveRoom_def Let_def roomsInv_def ps_def[symmetric] split: option.splits)
        next
          case (Cons nx rest)
          show ?thesis
          proof (cases "hostToken r = tok")
            case False
            from filt[OF ok False] have A: "map p_token (filter isHost (nx # rest)) = [hostToken r]"
              unfolding ps_def[symmetric] Cons .
            show ?thesis
              using inv base Cons False A
              by (auto simp: leaveRoom_def Let_def roomsInv_def ps_def[symmetric] hostOk_def
                       split: option.splits)
          next
            case h: True
            from filt2[OF ok h] have B: "filter isHost (nx # rest) = []"
              unfolding ps_def[symmetric] Cons .
            show ?thesis
              using inv base Cons h B
              by (auto simp: leaveRoom_def Let_def roomsInv_def ps_def[symmetric] hostOk_def
                       split: option.splits if_splits)
          qed
        qed
      qed
    qed
  qed
qed

lemma promote_membership:
  "promoteSpectators rid sl specs ps nps ss = (ps', nps', ss') \<Longrightarrow>
   filter isHost ps' = filter isHost ps"
proof (induction specs arbitrary: ps nps ss)
  case Nil then show ?case by simp
next
  case (Cons sp specs)
  show ?case
  proof (cases "find (\<lambda>p. p_token p = sp_token sp) ps \<noteq> None")
    case True with Cons show ?thesis by simp
  next
    case False
    with Cons.prems have "promoteSpectators rid sl specs (ps @ [playerOfSpectator sl sp])
        (nps @ [playerOfSpectator sl sp]) (setSessionRoom ss (sp_token sp) rid) = (ps', nps', ss')"
      by simp
    from Cons.IH[OF this] show ?thesis by (simp add: playerOfSpectator_def)
  qed
qed

lemma filter_host_reset:
  "map p_token (filter isHost (map (resetForLobby sl) ps)) = map p_token (filter isHost ps)"
  by (induction ps) (auto simp: resetForLobby_def)

lemma endGame_inv: "roomsInv rm \<Longrightarrow> roomsInv (fst (endGame rm rid))"
proof -
  assume inv: "roomsInv rm"
  show ?thesis
  proof (cases "rooms rm rid")
    case None then show ?thesis using inv by (simp add: endGame_def)
  next
    case (Some r)
    with inv have ok: "hostOk r" and id: "r_id r = rid" and ne: "rid \<noteq> []" by (auto simp: roomsInv_def)
    obtain ps nps ss where pr: "promoteSpectators rid (startingLives (settings r))
         (pendingSpectators r) (players r) [] (sessions rm) = (ps, nps, ss)"
      by (metis prod_cases3)
    from promote_membership[OF pr] ok
    have "map p_token (filter isHost (map (resetForLobby (startingLives (settings r))) ps)) = [hostToken r]"
      by (simp add: filter_host_reset hostOk_def)
    then show ?thesis using inv Some id ne pr
      by (auto simp: endGame_def Let_def roomsInv_def hostOk_def)
  qed
qed

lemma register_inv: "roomsInv rm \<Longrightarrow> roomsInv (fst (registerSocket rm tok sid))"
  by (auto simp: roomsInv_def registerSocket_def Let_def split: option.splits)

lemma unregister_inv: "roomsInv rm \<Longrightarrow> roomsInv (fst (unregisterSocket rm sid))"
  by (auto simp: roomsInv_def unregisterSocket_def Let_def split: option.splits)

lemma startGame_inv: "roomsInv rm \<Longrightarrow> roomsInv (fst (startGame rm rid now))"
proof -
  assume inv: "roomsInv rm"
  have "\<And>sl ps. map p_token (filter isHost (map (resetForGame sl) ps)) = map p_token (filter isHost ps)"
  proof -
    fix sl ps show "map p_token (filter isHost (map (resetForGame sl) ps)) = map p_token (filter isHost ps)"
      by (induction ps) (auto simp: resetForGame_def)
  qed
  then show ?thesis using inv
    by (auto simp: roomsInv_def startGame_def Let_def hostOk_def split: option.splits)
qed

lemma setDisconnected_inv: "roomsInv rm \<Longrightarrow> roomsInv (fst (setDisconnected rm tok d))"
proof -
  assume inv: "roomsInv rm"
  have "\<And>r. hostOk r \<Longrightarrow> hostOk (r\<lparr>players := updFirst (\<lambda>p. p_token p = tok) (\<lambda>p. p\<lparr>disconnected := d\<rparr>) (players r)\<rparr>)"
    by (rule sameMembership_hostOk) (simp_all add: sameMembership_def updFirst_membership)
  then show ?thesis using inv
    by (auto simp: roomsInv_def setDisconnected_def Let_def split: option.splits)
qed

lemma reachable_inv: "reachable rm \<Longrightarrow> roomsInv rm"
proof (induction rule: reachable.induct)
  case r_new then show ?case by (simp add: roomsInv_def newRoomManager_def)
next
  case (r_field rm rid r r')
  then show ?case using sameMembership_hostOk[of r r']
    by (auto simp: roomsInv_def sameMembership_def)
next
  case (r_session rm ss) then show ?case by (simp add: roomsInv_def)
next
  case (r_cleanup rm rid) then show ?case by (simp add: roomsInv_def)
qed (simp_all add: register_inv unregister_inv createRoom_inv joinRoom_inv leaveRoom_inv
       endGame_inv startGame_inv setDisconnected_inv markDisconnected_def markReconnected_def)

lemma hostOk_unique: "hostOk r \<Longrightarrow> \<exists>h. filter isHost (players r) = [h] \<and> p_token h = hostToken r"
  by (auto simp: hostOk_def map_eq_Cons_conv)

text \<open>
  Claim C7. In every state the room manager reaches from \<open>new RoomManager()\<close>, and so
  after each of the membership mutations \<open>createRoom\<close>, \<open>joinRoom\<close>, \<open>leaveRoom\<close> and
  \<open>endGame\<close>, every room that has a player has exactly one player with \<open>isHost = true\<close>,
  and the token of that player is \<open>room.hostToken\<close>. When the host leaves and players
  remain, the first remaining player is promoted and \<open>hostToken\<close> becomes the token of
  that player.
\<close>

theorem host_unique_after_membership_mutation:
  "reachable rm \<Longrightarrow>
     (\<forall>rm' rid r. membershipMutation rm rm' \<longrightarrow> rooms rm' rid = Some r \<longrightarrow> players r \<noteq> [] \<longrightarrow>
        (\<exists>h. filter isHost (players r) = [h] \<and> p_token h = hostToken r))
   \<and> (\<forall>tok now sess rid r nx rest.
        sessions rm tok = Some sess \<longrightarrow> s_roomId sess = Some rid \<longrightarrow> rooms rm rid = Some r \<longrightarrow>
        hostToken r = tok \<longrightarrow> filter (\<lambda>p. p_token p \<noteq> tok) (players r) = nx # rest \<longrightarrow>
        hostPromoted rm tok now rid nx rest)"
proof (intro conjI allI impI)
  fix rm' rid r
  assume re: "reachable rm" and mu: "membershipMutation rm rm'"
    and r: "rooms rm' rid = Some r"
  from mu re have "reachable rm'"
    by (cases rule: membershipMutation.cases) (auto intro: reachable.intros)
  from reachable_inv[OF this] r have "hostOk r" by (auto simp: roomsInv_def)
  then show "\<exists>h. filter isHost (players r) = [h] \<and> p_token h = hostToken r"
    by (rule hostOk_unique)
next
  fix tok now sess rid r nx rest
  assume re: "reachable rm" and s: "sessions rm tok = Some sess" "s_roomId sess = Some rid"
    and r: "rooms rm rid = Some r" and h: "hostToken r = tok"
    and f: "filter (\<lambda>p. p_token p \<noteq> tok) (players r) = nx # rest"
  from reachable_inv[OF re] r have "rid \<noteq> []" "r_id r = rid" by (auto simp: roomsInv_def)
  then show "hostPromoted rm tok now rid nx rest"
    using s r h f
    by (auto simp: hostPromoted_def leaveRoom_def Let_def truthyS_def split: option.splits)
qed

lemmas twoPlayerRoom_simps =
  twoPlayerRoom_def registerSocket_def createRoom_def joinRoom_def leaveRoom_def Let_def
  newRoomManager_def orElseS_def orNullS_def truthyS_def setSessionRoom_def rebindSession_def
  generateId_def

theorem host_unique_witness:
  "reachable twoPlayerRoom
   \<and> membershipMutation twoPlayerRoom (fst (leaveRoom twoPlayerRoom ''h'' 5))
   \<and> (\<exists>r. rooms (fst (leaveRoom twoPlayerRoom ''h'' 5)) ''R'' = Some r
          \<and> map p_token (players r) = [''g'']
          \<and> (\<exists>h. filter isHost (players r) = [h] \<and> p_token h = hostToken r))
   \<and> (\<exists>sess r nx. sessions twoPlayerRoom ''h'' = Some sess \<and> s_roomId sess = Some ''R''
          \<and> rooms twoPlayerRoom ''R'' = Some r \<and> hostToken r = ''h''
          \<and> filter (\<lambda>p. p_token p \<noteq> ''h'') (players r) = [nx]
          \<and> hostPromoted twoPlayerRoom ''h'' 5 ''R'' nx [])"
proof -
  have re: "reachable twoPlayerRoom"
    unfolding twoPlayerRoom_def Let_def by (intro reachable.intros)
  have mu: "membershipMutation twoPlayerRoom (fst (leaveRoom twoPlayerRoom ''h'' 5))"
    by (rule membershipMutation.intros)
  obtain r where r: "rooms (fst (leaveRoom twoPlayerRoom ''h'' 5)) ''R'' = Some r"
      and ps: "map p_token (players r) = [''g'']"
    by (simp add: twoPlayerRoom_simps)
  from ps have ne: "players r \<noteq> []" by auto
  obtain sess r0 nx where s: "sessions twoPlayerRoom ''h'' = Some sess" "s_roomId sess = Some ''R''"
      "rooms twoPlayerRoom ''R'' = Some r0" "hostToken r0 = ''h''"
      "filter (\<lambda>p. p_token p \<noteq> ''h'') (players r0) = [nx]"
    by (simp add: twoPlayerRoom_simps)
  note th = host_unique_after_membership_mutation[OF re]
  from th[THEN conjunct1, rule_format, OF mu r ne]
  have u: "\<exists>h. filter isHost (players r) = [h] \<and> p_token h = hostToken r" .
  from th[THEN conjunct2, rule_format, OF s]
  have pr: "hostPromoted twoPlayerRoom ''h'' 5 ''R'' nx []" .
  from r ps u have c3: "\<exists>r. rooms (fst (leaveRoom twoPlayerRoom ''h'' 5)) ''R'' = Some r
          \<and> map p_token (players r) = [''g'']
          \<and> (\<exists>h. filter isHost (players r) = [h] \<and> p_token h = hostToken r)"
    by (intro exI[of _ r] conjI)
  from s pr have c4: "\<exists>sess r nx. sessions twoPlayerRoom ''h'' = Some sess \<and> s_roomId sess = Some ''R''
          \<and> rooms twoPlayerRoom ''R'' = Some r \<and> hostToken r = ''h''
          \<and> filter (\<lambda>p. p_token p \<noteq> ''h'') (players r) = [nx]
          \<and> hostPromoted twoPlayerRoom ''h'' 5 ''R'' nx []"
    by (intro exI[of _ sess] exI[of _ r0] exI[of _ nx] conjI)
  from re mu c3 c4 show ?thesis by (intro conjI)
qed

text \<open>
  Claim C9, amended. After \<open>register(t, s1); register(t, s2)\<close> the session of \<open>t\<close> is the
  one returned, its \<open>socketId\<close> is \<open>s2\<close>, the reverse map sends \<open>s2\<close> to \<open>t\<close>, the
  sessions of the other tokens are untouched, and when \<open>s1\<close> and \<open>s2\<close> differ \<open>s1\<close> is no
  longer in the reverse map.
\<close>

theorem register_twice:
  "(case registerSocket (fst (registerSocket rm t s1)) t s2 of
      (rm2, sess) \<Rightarrow>
         sessions rm2 t = Some sess \<and> s_socketId sess = Some s2 \<and> sockets rm2 s2 = Some t
         \<and> (s1 \<noteq> s2 \<longrightarrow> sockets rm2 s1 = None)
         \<and> (\<forall>t'. t' \<noteq> t \<longrightarrow> sessions rm2 t' = sessions rm t'))"
  by (auto simp: registerSocket_def Let_def split: option.splits)

text \<open>
  With \<open>s1 = s2\<close> the socket id registered twice still maps to the token, so the
  claim as stated for every pair of socket ids fails there.
\<close>

theorem register_twice_same_socket_counterexample:
  "sockets (fst (registerSocket (fst (registerSocket newRoomManager ''t'' ''a'')) ''t'' ''a'')) ''a''
     = Some ''t''"
  by (simp add: registerSocket_def newRoomManager_def Let_def)

theorem register_twice_witness:
  "''s1'' \<noteq> ''s2'' \<and>
   sockets (fst (registerSocket (fst (registerSocket newRoomManager ''t'' ''s1'')) ''t'' ''s2'')) ''s1'' = None
   \<and> sockets (fst (registerSocket (fst (registerSocket newRoomManager ''t'' ''s1'')) ''t'' ''s2'')) ''s2'' = Some ''t''"
  using register_twice[where rm = newRoomManager and t = "''t''" and ?s1.0 = "''s1''" and ?s2.0 = "''s2''"]
  by (simp add: split_beta)


lemma promote_char:
  "promoteSpectators rid sl specs ps nps ss = (ps', nps', ss') \<Longrightarrow>
   \<exists>new. ps' = ps @ new \<and> nps' = nps @ new
        \<and> set new \<subseteq> playerOfSpectator sl ` set specs
        \<and> p_token ` set new = sp_token ` set specs - p_token ` set ps
        \<and> distinct (map p_token new)"
proof (induction specs arbitrary: ps nps ss)
  case Nil then show ?case by simp
next
  case (Cons sp specs)
  show ?case
  proof (cases "find (\<lambda>p. p_token p = sp_token sp) ps = None")
    case False
    then have inps: "sp_token sp \<in> p_token ` set ps" by (simp add: find_token_None)
    from False Cons.prems have "promoteSpectators rid sl specs ps nps ss = (ps', nps', ss')" by simp
    from Cons.IH[OF this] obtain new where n: "ps' = ps @ new" "nps' = nps @ new"
        "set new \<subseteq> playerOfSpectator sl ` set specs"
        "p_token ` set new = sp_token ` set specs - p_token ` set ps"
        "distinct (map p_token new)" by blast
    have "p_token ` set new = sp_token ` set (sp # specs) - p_token ` set ps"
      using n(4) inps by auto
    with n show ?thesis by (intro exI[of _ new]) auto
  next
    case True
    then have notin: "sp_token sp \<notin> p_token ` set ps" by (simp add: find_token_None)
    let ?pl = "playerOfSpectator sl sp"
    have tk: "p_token ?pl = sp_token sp" by (simp add: playerOfSpectator_def)
    from True Cons.prems have "promoteSpectators rid sl specs (ps @ [?pl]) (nps @ [?pl])
        (setSessionRoom ss (sp_token sp) rid) = (ps', nps', ss')" by simp
    from Cons.IH[OF this] obtain new where n: "ps' = (ps @ [?pl]) @ new" "nps' = (nps @ [?pl]) @ new"
        "set new \<subseteq> playerOfSpectator sl ` set specs"
        "p_token ` set new = sp_token ` set specs - p_token ` set (ps @ [?pl])"
        "distinct (map p_token new)" by blast
    have a: "p_token ` set (?pl # new) = sp_token ` set (sp # specs) - p_token ` set ps"
      using n(4) notin tk by auto
    have b: "distinct (map p_token (?pl # new))"
      using n(4,5) tk by auto
    show ?thesis
      using n(1,2,3) a b by (intro exI[of _ "?pl # new"]) auto
  qed
qed

lemma reset_fresh: "np \<in> playerOfSpectator sl ` set specs \<Longrightarrow> resetForLobby sl np = np"
  by (auto simp: playerOfSpectator_def resetForLobby_def)

lemma fresh_fresh: "np \<in> playerOfSpectator sl ` set specs \<Longrightarrow> freshFrom sl specs np"
  by (auto simp: playerOfSpectator_def freshFrom_def)

lemma endGame_char: "rooms rm roomId = Some r \<Longrightarrow> endGamePromotion rm roomId r"
proof -
  assume r: "rooms rm roomId = Some r"
  let ?sl = "startingLives (settings r)"
  obtain ps nps ss where pr: "promoteSpectators roomId ?sl
         (pendingSpectators r) (players r) [] (sessions rm) = (ps, nps, ss)"
    by (metis prod_cases3)
  from promote_char[OF pr] obtain new where n: "ps = players r @ new" "nps = new"
      "set new \<subseteq> playerOfSpectator ?sl ` set (pendingSpectators r)"
      "p_token ` set new = sp_token ` set (pendingSpectators r) - p_token ` set (players r)"
      "distinct (map p_token new)" by auto
  have m: "map (resetForLobby ?sl) new = new"
    using n(3) reset_fresh by (intro map_idI) blast
  have fr: "list_all (freshFrom ?sl (pendingSpectators r)) new"
    using n(3) fresh_fresh by (auto simp: list_all_iff)
  show ?thesis
    using r pr n(1,2,4,5) m fr
    by (simp add: endGamePromotion_def endGame_def Let_def)
qed

text \<open>
  Claim C10. \<open>endGame\<close> appends, after the players already there, one fresh player
  (starting lives, no word found, alive, not ready, not host) for each token of a pending
  spectator that is not among the players, empties \<open>pendingSpectators\<close>, and never
  looks at \<open>settings.maxPlayers\<close>: the room can end with more players than that.
\<close>

theorem endGame_promotes_all_spectators:
  "(\<forall>(rm :: roomManager) roomId r. rooms rm roomId = Some r \<longrightarrow> endGamePromotion rm roomId r)
   \<and> (\<exists>rm roomId res. snd (endGame rm roomId) = Some res
         \<and> length (players (eg_room res)) > maxPlayers (settings (eg_room res)))"
proof (intro conjI allI impI)
  fix rm :: roomManager and roomId r assume "rooms rm roomId = Some r"
  then show "endGamePromotion rm roomId r" by (rule endGame_char)
next
  have "\<exists>res. snd (endGame crowdedRoom ''R'') = Some res
         \<and> length (players (eg_room res)) > maxPlayers (settings (eg_room res))"
    by (simp add: crowdedRoom_def createRoom_def endGame_def Let_def orElseS_def orNullS_def
        truthyS_def setSessionRoom_def newRoomManager_def playerOfSpectator_def)
  then show "\<exists>rm roomId res. snd (endGame rm roomId) = Some res
         \<and> length (players (eg_room res)) > maxPlayers (settings (eg_room res))" by blast
qed

theorem endGame_promotes_witness:
  "rooms crowdedRoom ''R'' \<noteq> None
   \<and> length (players (eg_room (the (snd (endGame crowdedRoom ''R''))))) = 7
   \<and> endGamePromotion crowdedRoom ''R'' (the (rooms crowdedRoom ''R''))"
proof -
  have r: "rooms crowdedRoom ''R'' = Some (the (rooms crowdedRoom ''R''))"
    by (simp add: crowdedRoom_def createRoom_def Let_def orElseS_def)
  have l: "length (players (eg_room (the (snd (endGame crowdedRoom ''R''))))) = 7"
    by (simp add: crowdedRoom_def createRoom_def endGame_def Let_def orElseS_def orNullS_def
        truthyS_def setSessionRoom_def newRoomManager_def playerOfSpectator_def)
  from endGame_promotes_all_spectators r l show ?thesis by auto
qed


section \<open>Dictionary index: counts and failed rebuilds\<close>

lemma mapGet_mapSet: "mapGet (mapSet k v m) k' = (if k' = k then Some v else mapGet m k')"
  by (induction m) (auto simp: mapGet_def)

lemma countSyl_count:
  "countOf (countSyl E w L' syl idx) L s = countOf idx L s + (if L' = L \<and> syl = s then 1 else 0)"
  by (simp add: countOf_def countSyl_def Let_def mapGet_mapSet)

lemma fold_countSyl_count:
  "distinct syls \<Longrightarrow>
   countOf (fold (countSyl E w L') syls idx) L s
     = countOf idx L s + (if L' = L \<and> s \<in> set syls then 1 else 0)"
proof (induction syls arbitrary: idx)
  case Nil then show ?case by simp
next
  case (Cons a syls)
  then show ?case by (auto simp: countSyl_count)
qed

lemma lengths_count:
  assumes "\<And>L. distinct (seen L)"
  shows "countOf (fold (\<lambda>L idx. fold (countSyl E w L) (seen L) idx) LENGTHS idx) L s
           = countOf idx L s + (if L \<in> set LENGTHS \<and> s \<in> set (seen L) then 1 else 0)"
  using assms by (auto simp: LENGTHS_def fold_countSyl_count)

lemma set_setAdd: "set (setAdd x xs) = insert x (set xs)"
  by (auto simp: setAdd_def)

lemma distinct_setAdd: "distinct xs \<Longrightarrow> distinct (setAdd x xs)"
  by (auto simp: setAdd_def)

lemma scan_fold_set:
  "set (fold (\<lambda>i seen. let syl = substring part i (i + L)
                        in if \<not> isAllLetters E syl then seen else setAdd syl seen) is seen)
     = set seen \<union> {substring part i (i + L) | i. i \<in> set is \<and> isAllLetters E (substring part i (i + L))}"
  by (induction "is" arbitrary: seen) (auto simp: Let_def set_setAdd)

lemma scan_fold_distinct:
  "distinct seen \<Longrightarrow>
   distinct (fold (\<lambda>i seen. let syl = substring part i (i + L)
                        in if \<not> isAllLetters E syl then seen else setAdd syl seen) is seen)"
  by (induction "is" arbitrary: seen) (auto simp: Let_def distinct_setAdd)

lemma sublist_substring:
  "sublist s part \<and> length s = L \<longleftrightarrow> L \<le> length part \<and> (\<exists>i < length part - L + 1. s = substring part i (i + L))"
proof
  assume "sublist s part \<and> length s = L"
  then obtain ps ss where p: "part = ps @ s @ ss" and l: "length s = L" by (auto simp: sublist_def)
  then have "s = substring part (length ps) (length ps + L)" by (simp add: substring_def)
  moreover have "length ps < length part - L + 1" "L \<le> length part" using p l by auto
  ultimately show "L \<le> length part \<and> (\<exists>i < length part - L + 1. s = substring part i (i + L))" by blast
next
  assume "L \<le> length part \<and> (\<exists>i < length part - L + 1. s = substring part i (i + L))"
  then obtain i where i0: "i < length part - L + 1" "L \<le> length part"
      and s: "s = take L (drop i part)"
    by (auto simp: substring_def)
  from i0 have i: "i + L \<le> length part" by arith
  have "part = take i part @ take L (drop i part) @ drop L (drop i part)"
    by (metis append_take_drop_id)
  then have "sublist s part" unfolding s sublist_def by blast
  moreover have "length s = L" using i s by simp
  ultimately show "sublist s part \<and> length s = L" by simp
qed

lemma scanPartL_set:
  "set (scanPartL E part L seen)
     = set seen \<union> {s. sublist s part \<and> length s = L \<and> isAllLetters E s}"
proof (cases "length part < L")
  case True
  then have "\<And>s. sublist s part \<Longrightarrow> length s \<noteq> L"
    using sublist_length_le by fastforce
  with True show ?thesis by (auto simp: scanPartL_def)
next
  case False
  have "{substring part i (i + L) | i. i \<in> set [0..<length part - L + 1] \<and> isAllLetters E (substring part i (i + L))}
        = {s. sublist s part \<and> length s = L \<and> isAllLetters E s}"
  proof (rule set_eqI)
    fix s
    have eq: "(sublist s part \<and> length s = L) = (\<exists>i < length part - L + 1. s = substring part i (i + L))"
      using False sublist_substring[of s part L] by simp
    show "s \<in> {substring part i (i + L) | i. i \<in> set [0..<length part - L + 1] \<and> isAllLetters E (substring part i (i + L))}
        \<longleftrightarrow> s \<in> {s. sublist s part \<and> length s = L \<and> isAllLetters E s}"
    proof (simp only: mem_Collect_eq set_upt atLeastLessThan_iff, intro iffI)
      assume "\<exists>i. s = substring part i (i + L) \<and> (0 \<le> i \<and> i < length part - L + 1)
                \<and> isAllLetters E (substring part i (i + L))"
      then obtain i where a: "s = substring part i (i + L)" "i < length part - L + 1"
          "isAllLetters E (substring part i (i + L))" by blast
      from a(1,2) have "\<exists>i < length part - L + 1. s = substring part i (i + L)" by blast
      from eq[THEN iffD2, OF this] a(1,3)
      show "sublist s part \<and> length s = L \<and> isAllLetters E s" by simp
    next
      assume b: "sublist s part \<and> length s = L \<and> isAllLetters E s"
      then have "sublist s part \<and> length s = L" by simp
      from eq[THEN iffD1, OF this] obtain i where i: "i < length part - L + 1"
          "s = substring part i (i + L)" by blast
      from b i(2) have "isAllLetters E (substring part i (i + L))" by simp
      with i show "\<exists>i. s = substring part i (i + L) \<and> (0 \<le> i \<and> i < length part - L + 1)
                \<and> isAllLetters E (substring part i (i + L))" by blast
    qed
  qed
  with False show ?thesis
    by (simp add: scanPartL_def scan_fold_set del: upt_Suc)
qed

lemma scanPartL_distinct: "distinct seen \<Longrightarrow> distinct (scanPartL E part L seen)"
  by (simp add: scanPartL_def scan_fold_distinct del: upt_Suc)

lemma scanPart_apply:
  "scanPart E part seen L = (if L \<in> set LENGTHS then scanPartL E part L (seen L) else seen L)"
  by (simp add: scanPart_def LENGTHS_def)

lemma fold_scanPart_set:
  "L \<in> set LENGTHS \<Longrightarrow>
   set (fold (scanPart E) parts seen L)
     = set (seen L) \<union> {s. (\<exists>part \<in> set parts. sublist s part) \<and> length s = L \<and> isAllLetters E s}"
proof (induction parts arbitrary: seen)
  case Nil then show ?case by simp
next
  case (Cons p parts)
  have "set (fold (scanPart E) (p # parts) seen L) = set (fold (scanPart E) parts (scanPart E p seen) L)"
    by simp
  also have "\<dots> = set (scanPart E p seen L)
       \<union> {s. (\<exists>part \<in> set parts. sublist s part) \<and> length s = L \<and> isAllLetters E s}"
    by (rule Cons.IH[OF Cons.prems])
  also have "set (scanPart E p seen L) = set (seen L) \<union> {s. sublist s p \<and> length s = L \<and> isAllLetters E s}"
    using Cons.prems by (simp add: scanPart_apply scanPartL_set)
  finally show ?case by auto
qed

lemma fold_scanPart_distinct:
  "distinct (seen L) \<Longrightarrow> distinct (fold (scanPart E) parts seen L)"
proof (induction parts arbitrary: seen)
  case Nil then show ?case by simp
next
  case (Cons p parts)
  have "distinct (scanPart E p seen L)"
    using Cons.prems by (simp add: scanPart_apply scanPartL_distinct)
  from Cons.IH[of "scanPart E p seen", OF this] show ?case by simp
qed

lemma seenSyls_set:
  "L \<in> set LENGTHS \<Longrightarrow>
   s \<in> set (seenSyls E parts L) \<longleftrightarrow> (\<exists>part \<in> set parts. sublist s part) \<and> length s = L \<and> isAllLetters E s"
  by (simp add: seenSyls_def fold_scanPart_set)

lemma seenSyls_distinct: "distinct (seenSyls E parts L)"
  by (simp add: seenSyls_def fold_scanPart_distinct)

lemma onLine_count:
  "L \<in> set LENGTHS \<Longrightarrow> length s = L \<Longrightarrow>
   countOf (fst (onLine E line (idx, n))) L s
     = countOf idx L s
       + (if normalizeWord E line \<noteq> [] \<and> containsSyllable E s (normalizeWord E line) then 1 else 0)"
proof -
  assume L: "L \<in> set LENGTHS" and l: "length s = L"
  have c: "countOf (idx\<lparr>dictionarySet := d\<rparr>) L s = countOf idx L s" for d
    by (simp add: countOf_def)
  show ?thesis
    using L l
    by (simp add: onLine_def Let_def lengths_count[OF seenSyls_distinct] c seenSyls_set
          containsSyllable_def)
qed

lemma fold_onLine_count:
  "L \<in> set LENGTHS \<Longrightarrow> length s = L \<Longrightarrow>
   countOf (fst (fold (onLine E) ls st)) L s = countOf (fst st) L s + linesContaining E ls s"
proof (induction ls arbitrary: st)
  case Nil then show ?case by (simp add: linesContaining_def dictWords_def)
next
  case (Cons a ls)
  obtain idx n where st: "st = (idx, n)" by (cases st)
  have "linesContaining E (a # ls) s
      = (if normalizeWord E a \<noteq> [] \<and> containsSyllable E s (normalizeWord E a) then 1 else 0)
        + linesContaining E ls s"
    by (simp add: linesContaining_def dictWords_def)
  then show ?case
    using Cons.IH[OF Cons.prems, of "onLine E a st"] onLine_count[OF Cons.prems, of E a idx n]
    by (simp add: st)
qed

lemma prepare_countOf:
  "L \<in> set LENGTHS \<Longrightarrow> length s = L \<Longrightarrow>
   countOf (prepare E idx (Lines ls)) L s = linesContaining E ls s"
proof -
  assume L: "L \<in> set LENGTHS" and l: "length s = L"
  let ?idx0 = "idx\<lparr>ready := False, readyMessage := StartingBuild,
                      syllableCounts := fold (\<lambda>L sc. sc(L := [])) LENGTHS (syllableCounts idx),
                      wordsBySyll := [], dictionarySet := Some {}\<rparr>"
  have z: "countOf (?idx0\<lparr>dictionarySet := Some {}\<rparr>) L s = 0"
    using L by (auto simp: countOf_def LENGTHS_def mapGet_def)
  obtain idx' n where f: "fold (onLine E) ls (?idx0\<lparr>dictionarySet := Some {}\<rparr>, 0) = (idx', n)"
    by (cases "fold (onLine E) ls (?idx0\<lparr>dictionarySet := Some {}\<rparr>, 0)")
  from fold_onLine_count[OF L l, of E ls "(?idx0\<lparr>dictionarySet := Some {}\<rparr>, 0)"] f z
  have "countOf idx' L s = linesContaining E ls s" by simp
  then show ?thesis using f
    by (simp add: prepare_def buildStatsFromDictionary_def Let_def countOf_def)
qed

lemma countSyl_pos: "posAt idx L \<Longrightarrow> posAt (countSyl E w L' syl idx) L"
  by (auto simp: posAt_def countSyl_def Let_def mapGet_mapSet)

lemma fold_countSyl_pos: "posAt idx L \<Longrightarrow> posAt (fold (countSyl E w L') syls idx) L"
  by (induction syls arbitrary: idx) (auto simp: countSyl_pos)

lemma onLine_pos: "posAt idx L \<Longrightarrow> posAt (fst (onLine E line (idx, n))) L"
proof -
  assume p: "posAt idx L"
  have "posAt (idx\<lparr>dictionarySet := d\<rparr>) L" for d using p by (simp add: posAt_def)
  then show ?thesis
    by (simp add: onLine_def Let_def LENGTHS_def fold_countSyl_pos p)
qed

lemma fold_onLine_pos: "posAt (fst st) L \<Longrightarrow> posAt (fst (fold (onLine E) ls st)) L"
proof (induction ls arbitrary: st)
  case Nil then show ?case by simp
next
  case (Cons a ls)
  obtain idx n where st: "st = (idx, n)" by (cases st)
  from Cons.prems have "posAt (fst (onLine E a st)) L" by (simp add: st onLine_pos)
  from Cons.IH[OF this] show ?case by simp
qed

lemma prepare_pos: "L \<in> set LENGTHS \<Longrightarrow> posAt (prepare E idx (Lines ls)) L"
proof -
  assume L: "L \<in> set LENGTHS"
  let ?idx0 = "idx\<lparr>ready := False, readyMessage := StartingBuild,
                      syllableCounts := fold (\<lambda>L sc. sc(L := [])) LENGTHS (syllableCounts idx),
                      wordsBySyll := [], dictionarySet := Some {}\<rparr>"
  have z: "posAt (fst (?idx0\<lparr>dictionarySet := Some {}\<rparr>, 0::nat)) L"
    using L by (auto simp: posAt_def LENGTHS_def mapGet_def)
  obtain idx' n where f: "fold (onLine E) ls (?idx0\<lparr>dictionarySet := Some {}\<rparr>, 0) = (idx', n)"
    by (cases "fold (onLine E) ls (?idx0\<lparr>dictionarySet := Some {}\<rparr>, 0)")
  from fold_onLine_pos[OF z, of E ls] f have "posAt idx' L" by simp
  then show ?thesis using f
    by (simp add: prepare_def buildStatsFromDictionary_def Let_def posAt_def)
qed

lemma distinct_count:
  "distinct ws \<Longrightarrow> length (filter P ws) = card {w \<in> set ws. P w}"
proof -
  assume "distinct ws"
  then have "distinct (filter P ws)" by simp
  then have "card (set (filter P ws)) = length (filter P ws)" by (rule distinct_card)
  then show ?thesis by simp
qed

text \<open>
  Claim C3, amended. After \<open>prepare\<close> has built the index from a dictionary file, for
  every length \<open>L\<close> of 2, 3 or 4 and every string \<open>s\<close> of length \<open>L\<close>, the count stored
  for \<open>s\<close> is the number of non-empty normalized lines that contain \<open>s\<close> as an
  all-letter piece of a part between hyphens (no entry when there is none). Each line
  counts once however often \<open>s\<close> occurs in it, and a word listed on two lines counts
  twice; for a file whose words are pairwise distinct this is the number of distinct
  words.
\<close>

theorem syllable_count_is_lines_containing:
  "L \<in> set LENGTHS \<Longrightarrow> length s = L \<Longrightarrow>
   storedCount (prepare E idx (Lines ls)) L s
     = (if linesContaining E ls s = 0 then None else Some (linesContaining E ls s))
   \<and> (distinct (dictWords E ls) \<longrightarrow> linesContaining E ls s = distinctWordsContaining E ls s)"
proof -
  assume L: "L \<in> set LENGTHS" and l: "length s = L"
  have c: "countOf (prepare E idx (Lines ls)) L s = linesContaining E ls s"
    by (rule prepare_countOf[OF L l])
  have p: "posAt (prepare E idx (Lines ls)) L" by (rule prepare_pos[OF L])
  have "storedCount (prepare E idx (Lines ls)) L s
     = (if linesContaining E ls s = 0 then None else Some (linesContaining E ls s))"
  proof (cases "storedCount (prepare E idx (Lines ls)) L s")
    case None
    with c show ?thesis by (simp add: countOf_def storedCount_def)
  next
    case (Some n)
    with p have "0 < n" by (auto simp: posAt_def storedCount_def)
    with c Some show ?thesis by (simp add: countOf_def storedCount_def)
  qed
  moreover have "distinct (dictWords E ls) \<longrightarrow> linesContaining E ls s = distinctWordsContaining E ls s"
    by (simp add: linesContaining_def distinctWordsContaining_def distinct_count)
  ultimately show ?thesis by simp
qed

lemmas index_eval =
  prepare_def buildStatsFromDictionary_def onLine_def countSyl_def initialIndex_def mapGet_def
  normalizeWord_def asciiEnv_def asciiUpper_def trim_def isWhiteSpace_def wordParts_def
  seenSyls_def scanPart_def LENGTHS_def scanPartL_def Let_def substring_def setAdd_def
  isAllLetters_def upt_conv_Cons

lemma counts_RE_RE:
  "syllableCounts (prepare asciiEnv initialIndex (Lines [''RE'', ''RE''])) 2 = [(''RE'', 2)]"
  by (simp add: index_eval)

lemma dictWords_RE_RE: "dictWords asciiEnv [''RE'', ''RE''] = [''RE'', ''RE'']"
  by (simp add: dictWords_def normalizeWord_def asciiEnv_def asciiUpper_def trim_def isWhiteSpace_def)

lemma contains_RE: "containsSyllable asciiEnv ''RE'' ''RE''"
  by (simp add: containsSyllable_def isAllLetters_def asciiEnv_def wordParts_def)

text \<open>
  A file with the line \<open>RE\<close> twice stores the count 2 for \<open>RE\<close>, and has one
  distinct word containing it.
\<close>

theorem duplicate_line_counted_twice_counterexample:
  "storedCount (prepare asciiEnv initialIndex (Lines [''RE'', ''RE''])) 2 ''RE'' = Some 2
   \<and> distinctWordsContaining asciiEnv [''RE'', ''RE''] ''RE'' = 1"
proof -
  have "{w \<in> set (dictWords asciiEnv [''RE'', ''RE'']). containsSyllable asciiEnv ''RE'' w} = {''RE''}"
    using contains_RE by (auto simp: dictWords_RE_RE)
  then have "distinctWordsContaining asciiEnv [''RE'', ''RE''] ''RE'' = 1"
    by (simp add: distinctWordsContaining_def)
  then show ?thesis by (simp add: storedCount_def counts_RE_RE mapGet_def)
qed

theorem syllable_count_witness:
  "2 \<in> set LENGTHS \<and> length ''RE'' = 2
   \<and> storedCount (prepare asciiEnv initialIndex (Lines [''RE'', ''RE''])) 2 ''RE'' = Some 2
   \<and> linesContaining asciiEnv [''RE'', ''RE''] ''RE'' = 2"
proof -
  have a: "2 \<in> set LENGTHS" by (simp add: LENGTHS_def)
  have b: "length ''RE'' = 2" by simp
  have c: "storedCount (prepare asciiEnv initialIndex (Lines [''RE'', ''RE''])) 2 ''RE'' = Some 2"
    by (simp add: storedCount_def counts_RE_RE mapGet_def)
  from syllable_count_is_lines_containing[OF a b, of asciiEnv initialIndex "[''RE'', ''RE'']"] c
  have "linesContaining asciiEnv [''RE'', ''RE''] ''RE'' = 2"
    by (simp split: if_splits)
  with a b c show ?thesis by simp
qed

lemma prepare_Absent:
  "prepare E idx Absent
     = idx\<lparr>ready := False, readyMessage := BuildError,
           syllableCounts := fold (\<lambda>L sc. sc(L := [])) LENGTHS (syllableCounts idx),
           wordsBySyll := [], dictionarySet := Some {}\<rparr>"
  by (simp add: prepare_def buildStatsFromDictionary_def)

text \<open>
  Claim C1, amended. \<open>prepare\<close> resets the index before it builds, so a failed rebuild
  does not keep the prior index. When the file is absent the index is left empty and
  not ready, whatever it held: membership is false for every word, every sample list is
  empty and every count of a syllable of length 2, 3 or 4 is \<open>null\<close>. After a read
  error the index is the one built from the lines read before the error, and not ready.
\<close>

theorem failed_prepare_leaves_reset_index:
  "emptyIndex (prepare E idx Absent) \<and> \<not> ready (prepare E idx Absent)
   \<and> prepare E idx (LinesThenError ls)
       = (prepare E idx (Lines ls))\<lparr>ready := False, readyMessage := BuildError\<rparr>
   \<and> (\<forall>w. \<not> dictHas (prepare E idx Absent) w)
   \<and> (\<forall>L syl limit. wordsFor (prepare E idx Absent) L syl limit = [])
   \<and> (\<forall>syl. length syl \<in> set LENGTHS \<longrightarrow>
         getSyllableCount E (prepare E idx Absent) (Some syl) = None)"
proof (intro conjI allI impI)
  show "emptyIndex (prepare E idx Absent)"
    by (simp add: prepare_Absent emptyIndex_def LENGTHS_def)
  show "\<not> ready (prepare E idx Absent)" by (simp add: prepare_Absent)
  show "prepare E idx (LinesThenError ls)
       = (prepare E idx (Lines ls))\<lparr>ready := False, readyMessage := BuildError\<rparr>"
    by (simp add: prepare_def buildStatsFromDictionary_def Let_def split_beta)
  show "\<not> dictHas (prepare E idx Absent) w" for w
    by (simp add: prepare_Absent dictHas_def)
  show "wordsFor (prepare E idx Absent) L syl limit = []" for L syl limit
    by (simp add: prepare_Absent wordsFor_def mapGet_def)
  show "getSyllableCount E (prepare E idx Absent) (Some syl) = None"
    if "length syl \<in> set LENGTHS" for syl
    using that
    by (auto simp: prepare_Absent getSyllableCount_def mapGet_def LENGTHS_def)
qed

lemma indexRE_fields:
  "syllableCounts indexRE 2 = [(''RE'', 1)]"
  "wordsBySyll indexRE = [((2, ''RE''), [''RE''])]"
  "dictionarySet indexRE = Some {hashWord ''RE''}"
  by (simp_all add: indexRE_def index_eval)

lemma indexRE_counts_Suc: "syllableCounts indexRE (Suc (Suc 0)) = [(''RE'', 1)]"
  using indexRE_fields(1) by (simp add: numeral_2_eq_2)

lemma upper_re: "toUpperCase asciiEnv ''re'' = ''RE''"
  by (simp add: asciiEnv_def asciiUpper_def)

text \<open>
  The index built from the word \<open>RE\<close> answers the three queries for it; after a
  rebuild that finds no file, the same queries find nothing.
\<close>

theorem failed_rebuild_loses_index_counterexample:
  "dictHas indexRE ''RE'' \<and> \<not> dictHas (prepare asciiEnv indexRE Absent) ''RE''
   \<and> getSyllableCount asciiEnv indexRE (Some ''re'') = Some 1
   \<and> getSyllableCount asciiEnv (prepare asciiEnv indexRE Absent) (Some ''re'') = None
   \<and> wordsFor indexRE 2 ''RE'' 50 = [''RE'']
   \<and> wordsFor (prepare asciiEnv indexRE Absent) 2 ''RE'' 50 = []"
  by (simp add: prepare_Absent dictHas_def getSyllableCount_def wordsFor_def indexRE_fields indexRE_counts_Suc
        upper_re mapGet_def truthyS_def LENGTHS_def)

theorem failed_prepare_witness:
  "length ''RE'' \<in> set LENGTHS
   \<and> getSyllableCount asciiEnv indexRE (Some ''RE'') = Some 1
   \<and> getSyllableCount asciiEnv (prepare asciiEnv indexRE Absent) (Some ''RE'') = None
   \<and> emptyIndex (prepare asciiEnv indexRE Absent)"
proof -
  have a: "length ''RE'' \<in> set LENGTHS" by (simp add: LENGTHS_def)
  have b: "getSyllableCount asciiEnv indexRE (Some ''RE'') = Some 1"
    by (simp add: getSyllableCount_def indexRE_fields indexRE_counts_Suc mapGet_def truthyS_def asciiEnv_def asciiUpper_def)
  from failed_prepare_leaves_reset_index[of asciiEnv indexRE "[]"] a b
  show ?thesis by blast
qed

text \<open>The count map of one length, line by line; the keys of the maps stay distinct.\<close>

lemma sc_countSyl:
  "syllableCounts (countSyl E w L syl idx) L'
     = (if L' = L
        then mapSet syl ((case mapGet (syllableCounts idx L) syl of None \<Rightarrow> 0 | Some c \<Rightarrow> c) + 1)
               (syllableCounts idx L)
        else syllableCounts idx L')"
  by (simp add: countSyl_def Let_def)

lemma sc_fold_countSyl:
  "syllableCounts (fold (countSyl E w L) syls idx) L'
     = (if L' = L then bumpAll (syllableCounts idx L) syls else syllableCounts idx L')"
proof (induction syls arbitrary: idx)
  case Nil then show ?case by (simp add: bumpAll_def)
next
  case (Cons a syls)
  show ?case by (simp add: Cons.IH sc_countSyl bumpAll_def)
qed

lemma sc_onLine:
  "L \<in> set LENGTHS \<Longrightarrow>
   syllableCounts (fst (onLine E line (idx, n))) L = countLine E L line (syllableCounts idx L)"
  by (auto simp: onLine_def Let_def LENGTHS_def sc_fold_countSyl countLine_def)

lemma sc_fold_onLine:
  "L \<in> set LENGTHS \<Longrightarrow>
   syllableCounts (fst (fold (onLine E) ls st)) L = fold (countLine E L) ls (syllableCounts (fst st) L)"
proof (induction ls arbitrary: st)
  case Nil then show ?case by simp
next
  case (Cons a ls)
  obtain idx n where st: "st = (idx, n)" by (cases st)
  show ?case
    using Cons.IH[OF Cons.prems, of "onLine E a st"] sc_onLine[OF Cons.prems, of E a idx n]
    by (simp add: st)
qed

lemma sc_prepare:
  "L \<in> set LENGTHS \<Longrightarrow>
   syllableCounts (prepare E idx (Lines ls)) L = fold (countLine E L) ls []"
proof -
  assume L: "L \<in> set LENGTHS"
  let ?idx0 = "idx\<lparr>ready := False, readyMessage := StartingBuild,
                      syllableCounts := fold (\<lambda>L sc. sc(L := [])) LENGTHS (syllableCounts idx),
                      wordsBySyll := [], dictionarySet := Some {}\<rparr>"
  have z: "syllableCounts (fst (?idx0\<lparr>dictionarySet := Some {}\<rparr>, 0::nat)) L = []"
    using L by (auto simp: LENGTHS_def)
  obtain idx' n where f: "fold (onLine E) ls (?idx0\<lparr>dictionarySet := Some {}\<rparr>, 0) = (idx', n)"
    by (cases "fold (onLine E) ls (?idx0\<lparr>dictionarySet := Some {}\<rparr>, 0)")
  from sc_fold_onLine[OF L, of E ls "(?idx0\<lparr>dictionarySet := Some {}\<rparr>, 0)"] f z
  have "syllableCounts idx' L = fold (countLine E L) ls []" by simp
  then show ?thesis using f
    by (simp add: prepare_def buildStatsFromDictionary_def Let_def)
qed

lemmas word_eval = normalizeWord_def asciiEnv_def asciiUpper_def trim_def isWhiteSpace_def
lemmas seen_eval = wordParts_def seenSyls_def scanPart_def LENGTHS_def scanPartL_def Let_def
  substring_def setAdd_def isAllLetters_def asciiEnv_def upt_conv_Cons

lemma norm_words:
  "normalizeWord asciiEnv ''AB'' = ''AB''" "normalizeWord asciiEnv ''XYZ'' = ''XYZ''"
  by (simp_all add: word_eval)

lemma seen_words:
  "seenSyls asciiEnv (wordParts ''AB'') 2 = [''AB'']"
  "seenSyls asciiEnv (wordParts ''AB'') 3 = []"
  "seenSyls asciiEnv (wordParts ''AB'') 4 = []"
  "seenSyls asciiEnv (wordParts ''XYZ'') 2 = [''XY'', ''YZ'']"
  "seenSyls asciiEnv (wordParts ''XYZ'') 3 = [''XYZ'']"
  "seenSyls asciiEnv (wordParts ''XYZ'') 4 = []"
  by (simp_all add: seen_eval)

lemma indexMixed_fields:
  "syllableCounts indexMixed 2 = [(''AB'', 1), (''XY'', 9), (''YZ'', 9)]"
  "syllableCounts indexMixed 3 = [(''XYZ'', 9)]"
  "syllableCounts indexMixed 4 = []"
  by (simp_all add: indexMixed_def sc_prepare LENGTHS_def countLine_def norm_words seen_words
        bumpAll_def mapGet_def)

lemma mapSet_keys: "fst ` set (mapSet k v m) = insert k (fst ` set m)"
proof (induction m)
  case Nil then show ?case by simp
next
  case (Cons a m)
  obtain k' v' where a: "a = (k', v')" by (cases a)
  show ?case
  proof (cases "k' = k")
    case True then show ?thesis by (simp add: a)
  next
    case False
    then show ?thesis using Cons.IH by (simp add: a insert_commute)
  qed
qed

lemma mapSet_distinct: "distinct (map fst m) \<Longrightarrow> distinct (map fst (mapSet k v m))"
proof (induction m)
  case Nil then show ?case by simp
next
  case (Cons a m)
  then show ?case using mapSet_keys[of k v m] by (cases a) auto
qed

lemma bumpAll_Cons:
  "bumpAll m (a # syls)
     = bumpAll (mapSet a ((case mapGet m a of None \<Rightarrow> 0 | Some c \<Rightarrow> c) + 1) m) syls"
  by (simp add: bumpAll_def)

lemma bumpAll_distinct: "distinct (map fst m) \<Longrightarrow> distinct (map fst (bumpAll m syls))"
proof (induction syls arbitrary: m)
  case Nil then show ?case by (simp add: bumpAll_def)
next
  case (Cons a syls)
  from Cons.prems have "distinct (map fst (mapSet a ((case mapGet m a of None \<Rightarrow> 0 | Some c \<Rightarrow> c) + 1) m))"
    by (rule mapSet_distinct)
  from Cons.IH[OF this] show ?case by (simp only: bumpAll_Cons)
qed

lemma fold_countLine_distinct:
  "distinct (map fst m) \<Longrightarrow> distinct (map fst (fold (countLine E L) ls m))"
  by (induction ls arbitrary: m) (auto simp: countLine_def bumpAll_distinct)

lemma prepare_other_lengths:
  "L \<notin> set LENGTHS \<Longrightarrow> syllableCounts (prepare E idx (Lines ls)) L = syllableCounts idx L"
proof -
  assume L: "L \<notin> set LENGTHS"
  have c: "\<And>w L' syl idx. L' \<in> set LENGTHS \<Longrightarrow> syllableCounts (countSyl E w L' syl idx) L = syllableCounts idx L"
    using L by (auto simp: sc_countSyl)
  have f: "\<And>w L' syls idx. L' \<in> set LENGTHS \<Longrightarrow>
        syllableCounts (fold (countSyl E w L') syls idx) L = syllableCounts idx L"
    using L by (auto simp: sc_fold_countSyl)
  have o: "\<And>line idx n. syllableCounts (fst (onLine E line (idx, n))) L = syllableCounts idx L"
    using f by (auto simp: onLine_def Let_def LENGTHS_def)
  have fo: "\<And>st. syllableCounts (fst (fold (onLine E) ls st)) L = syllableCounts (fst st) L"
  proof (induction ls)
    case Nil show ?case by simp
  next
    case (Cons a ls)
    obtain idx n where st: "st = (idx, n)" by (cases st)
    show ?case using Cons[of "onLine E a st"] o[of a idx n] by (simp add: st)
  qed
  let ?idx0 = "idx\<lparr>ready := False, readyMessage := StartingBuild,
                      syllableCounts := fold (\<lambda>L sc. sc(L := [])) LENGTHS (syllableCounts idx),
                      wordsBySyll := [], dictionarySet := Some {}\<rparr>"
  obtain idx' n where g: "fold (onLine E) ls (?idx0\<lparr>dictionarySet := Some {}\<rparr>, 0) = (idx', n)"
    by (cases "fold (onLine E) ls (?idx0\<lparr>dictionarySet := Some {}\<rparr>, 0)")
  from fo[of "(?idx0\<lparr>dictionarySet := Some {}\<rparr>, 0)"] g L
  have "syllableCounts idx' L = syllableCounts idx L" by (auto simp: LENGTHS_def)
  then show ?thesis using g
    by (simp add: prepare_def buildStatsFromDictionary_def Let_def)
qed

lemma prepare_wf: "wfIndex idx \<Longrightarrow> wfIndex (prepare E idx (Lines ls))"
proof -
  assume w: "wfIndex idx"
  show ?thesis unfolding wfIndex_def
  proof
    fix L
    show "distinct (map fst (syllableCounts (prepare E idx (Lines ls)) L))"
    proof (cases "L \<in> set LENGTHS")
      case True
      then show ?thesis by (simp add: sc_prepare fold_countLine_distinct)
    next
      case False
      then show ?thesis using w by (simp add: prepare_other_lengths wfIndex_def)
    qed
  qed
qed

lemma wf_initial: "wfIndex initialIndex"
  by (simp add: wfIndex_def initialIndex_def)

lemma randIndex_lt: "0 \<le> u \<Longrightarrow> u < 1 \<Longrightarrow> 0 < n \<Longrightarrow> randIndex u n < n"
proof -
  assume u: "0 \<le> u" "u < 1" and n: "0 < n"
  have "u * real n < real n" using u n by simp
  then have "\<lfloor>u * real n\<rfloor> < int n" by (simp add: floor_less_iff)
  moreover have "0 \<le> \<lfloor>u * real n\<rfloor>" using u by simp
  ultimately show ?thesis by (simp add: randIndex_def nat_less_iff)
qed

lemma pick_nth: "0 \<le> u \<Longrightarrow> u < 1 \<Longrightarrow> xs \<noteq> [] \<Longrightarrow> xs ! randIndex u (length xs) \<in> set xs"
  by (simp add: randIndex_lt)

section \<open>Server: pause and resume, submissions, chat\<close>

lemmas room_eval =
  twoPlayerRoom_simps startGame_def resetForGame_def getRoom_def putRoom_def emit_def

lemma demo_room:
  "getRoom (roomManager demoServer) ''R'' = Some (roomOf demoServer ''R'')"
  "gameState (roomOf demoServer ''R'') = Playing"
  "map p_token (players (roomOf demoServer ''R'')) = [''h'', ''g'']"
  "hostToken (roomOf demoServer ''R'') = ''h''"
  by (simp_all add: demoServer_def roomOf_def room_eval)

lemma paused_room:
  "getRoom (roomManager pausedServer) ''R'' = Some (roomOf pausedServer ''R'')"
  "gameState (roomOf pausedServer ''R'') = Playing"
  "paused (game (roomOf pausedServer ''R''))"
  "pausedRemaining (game (roomOf pausedServer ''R'')) = Some 1000"
  by (simp_all add: pausedServer_def demoServer_def roomOf_def pauseRoomGame_def startRoomTimer_def
        totalOr8000_def room_eval)

text \<open>
  Claim C4, what the code does instead. When a paused game that is being played is
  resumed and the remaining time frozen by the pause is not zero, \<open>resumeRoomGame\<close>
  arms the timer with exactly that remaining time, however short, and announces it;
  the 3000 ms of the source are a default for a missing or zero value, not a floor.
\<close>

theorem resume_uses_frozen_remaining:
  assumes "getRoom (roomManager s) roomId = Some r" "gameState r = Playing" "paused (game r)"
    and "pausedRemaining (game r) = Some pr" "pr \<noteq> 0"
  shows "\<not> paused (game (roomOf (resumeRoomGame roomId now s) roomId))
     \<and> pausedRemaining (game (roomOf (resumeRoomGame roomId now s) roomId)) = None
     \<and> timerEndTime (game (roomOf (resumeRoomGame roomId now s) roomId)) = Some (now + pr)
     \<and> timer (game (roomOf (resumeRoomGame roomId now s) roomId))
          = Some \<lparr>tm_endTime = now + pr, tm_total = totalOr8000 (game r)\<rparr>
     \<and> newEvents s (resumeRoomGame roomId now s)
          = [(ToRoom roomId,
              GameResumed pr (totalOr8000 (game r)) (currentSyllable (game r))
                (currentPlayerIndex (game r))
                (playerOrFirst (players r) (currentPlayerIndex (game r))) (roundNumber (game r)))]"
  using assms
  by (simp add: resumeRoomGame_def roomOf_def putRoom_def emit_def getRoom_def newEvents_def Let_def)

text \<open>
  The input where the code departs from claim C4. The room is paused by
  \<open>pauseRoomGame\<close> with 1000 ms left on its timer and resumed at 50000 ms: the timer is
  armed to end at 51000 ms, not at 53000 ms, 3000 ms after the resumption.
\<close>

theorem resume_keeps_short_remaining:
  "getRoom (roomManager pausedServer) ''R'' = Some (roomOf pausedServer ''R'')
   \<and> gameState (roomOf pausedServer ''R'') = Playing
   \<and> paused (game (roomOf pausedServer ''R''))
   \<and> pausedRemaining (game (roomOf pausedServer ''R'')) = Some 1000
   \<and> timerEndTime (game (roomOf (resumeRoomGame ''R'' 50000 pausedServer) ''R'')) = Some 51000
   \<and> (50000 :: int) + max 1000 3000 = 53000"
proof -
  have ne: "(1000::int) \<noteq> 0" by simp
  from resume_uses_frozen_remaining[OF paused_room ne, of 50000] paused_room
  show ?thesis by simp
qed

text \<open>
  Claim C5. The handler of \<open>submitWord\<close> never reads the field \<open>syllable\<close> of its
  payload: two calls on the same state of the server, with the same socket, token,
  clock and random numbers, whose payloads differ only in that field, leave the same
  state and send the same messages.
\<close>

theorem submitWord_ignores_client_syllable:
  "submitWord E rd sid tok (pl\<lparr>sw_syllable := x\<rparr>) s
     = submitWord E rd sid tok (pl\<lparr>sw_syllable := y\<rparr>) s"
  by (simp add: submitWord_def Let_def cong: option.case_cong if_cong)

text \<open>
  Claim C5 in the demonstration room: the host submits the word \<open>re\<close> on their turn,
  once claiming the syllable \<open>ZZ\<close> and once the syllable \<open>RE\<close>.
\<close>

theorem submitWord_ignores_client_syllable_witness:
  "submitWord asciiEnv rdA ''s0'' (Some ''h'') (submitRE\<lparr>sw_syllable := Some ''ZZ''\<rparr>) demoServer
     = submitWord asciiEnv rdA ''s0'' (Some ''h'') (submitRE\<lparr>sw_syllable := Some ''RE''\<rparr>) demoServer"
  by (rule submitWord_ignores_client_syllable)

text \<open>
  Claim C8, what the code does instead. For a message of a player, not of the bot, in
  an existing room, the handler of \<open>chatMessage\<close> sends the message and the sender name as
  they are, trimmed and cut to 300 and 30 characters; \<open>escapeHtml\<close> is never applied.
\<close>

theorem chat_message_rebroadcast_unescaped:
  assumes "getRoom (roomManager s) (cm_roomId pl) = Some r" "\<not> cm_isBot pl"
    and "cm_message pl = Some m" "substring (trim m) 0 300 \<noteq> []"
    and "cm_playerName pl = Some n" "n \<noteq> []"
  shows "\<exists>av rt sr. newEvents s (chatMessage staffRoleOf now sid tok pl s)
           = [(ToRoom (cm_roomId pl),
               ChatMessage (substring (trim n) 0 30) sid (substring (trim m) 0 300) now
                 PlayerMessage av rt sr)]"
  using assms
  by (simp add: chatMessage_def Let_def emit_def newEvents_def orElseS_def truthyS_def)

text \<open>
  The input where the code departs from claim C8: the characters \<open><\<close> and \<open>>\<close> of the
  message and of the sender name reach the room unescaped, where \<open>escapeHtml\<close> would have
  replaced them.
\<close>

theorem chat_message_not_escaped:
  "getRoom (roomManager demoServer) ''R'' = Some (roomOf demoServer ''R'')
   \<and> (\<exists>av rt sr.
        newEvents demoServer
          (chatMessage Map.empty 7 ''s1'' (Some ''g'')
             \<lparr>cm_roomId = ''R'', cm_message = Some '' <b>hi</b> '', cm_playerName = Some ''<i>'',
              cm_avatar = None, cm_replyTo = None, cm_staffToken = None, cm_isBot = False\<rparr>
             demoServer)
        = [(ToRoom ''R'', ChatMessage ''<i>'' ''s1'' ''<b>hi</b>'' 7 PlayerMessage av rt sr)])
   \<and> escapeHtml ''<b>hi</b>'' = ''&lt;b&gt;hi&lt;/b&gt;''
   \<and> escapeHtml ''<i>'' = ''&lt;i&gt;''"
proof -
  let ?pl = "\<lparr>cm_roomId = ''R'', cm_message = Some '' <b>hi</b> '', cm_playerName = Some ''<i>'',
              cm_avatar = None, cm_replyTo = None, cm_staffToken = None, cm_isBot = False\<rparr>"
  have a: "getRoom (roomManager demoServer) (cm_roomId ?pl) = Some (roomOf demoServer ''R'')"
    by (simp add: demo_room)
  have t: "substring (trim '' <b>hi</b> '') 0 300 = ''<b>hi</b>''"
    "substring (trim ''<i>'') 0 30 = ''<i>''"
    by (simp_all add: substring_def trim_def isWhiteSpace_def)
  have b: "\<not> cm_isBot ?pl" "cm_message ?pl = Some '' <b>hi</b> ''"
    "substring (trim '' <b>hi</b> '') 0 300 \<noteq> []" "cm_playerName ?pl = Some ''<i>''"
    "''<i>'' \<noteq> []"
    by (simp_all add: t)
  from chat_message_rebroadcast_unescaped[OF a b, of Map.empty 7 "''s1''" "Some ''g''"]
  have "\<exists>av rt sr.
          newEvents demoServer (chatMessage Map.empty 7 ''s1'' (Some ''g'') ?pl demoServer)
          = [(ToRoom ''R'', ChatMessage ''<i>'' ''s1'' ''<b>hi</b>'' 7 PlayerMessage av rt sr)]"
    by (simp add: t)
  moreover have "escapeHtml ''<b>hi</b>'' = ''&lt;b&gt;hi&lt;/b&gt;''"
    "escapeHtml ''<i>'' = ''&lt;i&gt;''"
    by (simp_all add: escapeHtml_def)
  ultimately show ?thesis using demo_room(1) by simp
qed

lemma demo_room_value:
  "getRoom (roomManager demoServer) ''R'' = Some
     \<lparr>r_id = ''R'', r_name = ''Salle de jeu'', host = Some ''H'', hostAvatar = [], hostToken = ''h'',
      pendingSpectators = [],
      players = [\<lparr>p_token = ''h'', p_socketId = ''s0'', p_name = Some ''H'', p_avatar = [],
                   isHost = True, isReady = True, lives = 2, wordsFound = 0, isAlive = True,
                   disconnected = False\<rparr>,
                 \<lparr>p_token = ''g'', p_socketId = ''s1'', p_name = Some ''G'', p_avatar = [],
                   isHost = False, isReady = False, lives = 2, wordsFound = 0, isAlive = True,
                   disconnected = False\<rparr>],
      gameState = Playing,
      settings = \<lparr>scenario = None, wpp = None, maxPlayers = 6, startingLives = 2,
                   extraTurnSeconds = None\<rparr>,
      game = \<lparr>currentSyllable = None, currentPlayerIndex = 0, roundNumber = 0,
               startTime = Some 1000, timer = None, timerEndTime = None, timerTotal = None,
               paused = False, pausedRemaining = None, pausedAt = None,
               usedSyllables = {}, serverControlledUntil = None\<rparr>,
      createdAt = 0, recentlyLeft = []\<rparr>"
  by (simp add: demoServer_def room_eval)

lemma demo_nowhere: "getRoom (roomManager demoServer) ''nowhere'' = None"
  by (simp add: demoServer_def room_eval)

lemma startRoomTimer_keeps:
  "emitted (startRoomTimer roomId d now s) = emitted s"
  "wordSubmissions (startRoomTimer roomId d now s) = wordSubmissions s"
  "index (startRoomTimer roomId d now s) = index s"
  by (simp_all add: startRoomTimer_def putRoom_def Let_def split: option.splits)

lemma advance_keeps:
  "\<exists>es. emitted (advanceToNextAlivePlayer roomId s) = emitted s @ es"
  "wordSubmissions (advanceToNextAlivePlayer roomId s) = wordSubmissions s"
  "index (advanceToNextAlivePlayer roomId s) = index s"
  by (simp_all add: advanceToNextAlivePlayer_def putRoom_def emit_def Let_def split: option.splits)

lemma startNextRound_keeps:
  "\<exists>es. emitted (startNextRound E rd roomId s) = emitted s @ es"
  "wordSubmissions (startNextRound E rd roomId s) = wordSubmissions s"
  by (simp_all add: startNextRound_def startRoomTimer_keeps putRoom_def emit_def Let_def
        split_beta split: option.splits)

lemma round_after_accept:
  assumes "emitted s4 = es0 @ [e]" "wordSubmissions s4 = ws"
  shows "\<exists>es. emitted (startNextRound E rd roomId (advanceToNextAlivePlayer roomId s4)) = es0 @ e # es"
    and "wordSubmissions (startNextRound E rd roomId (advanceToNextAlivePlayer roomId s4)) = ws"
proof -
  obtain es1 where a: "emitted (advanceToNextAlivePlayer roomId s4) = emitted s4 @ es1"
    using advance_keeps(1) by blast
  obtain es2 where b: "emitted (startNextRound E rd roomId (advanceToNextAlivePlayer roomId s4))
      = emitted (advanceToNextAlivePlayer roomId s4) @ es2"
    using startNextRound_keeps(1) by blast
  show "\<exists>es. emitted (startNextRound E rd roomId (advanceToNextAlivePlayer roomId s4)) = es0 @ e # es"
    using a b assms(1) by simp
  show "wordSubmissions (startNextRound E rd roomId (advanceToNextAlivePlayer roomId s4)) = ws"
    using assms(2) by (simp add: startNextRound_keeps advance_keeps)
qed

lemma accepted_path:
  assumes r: "getRoom (roomManager s) (sw_roomId pl) = Some r" "gameState r = Playing"
    and p: "find (\<lambda>p. Some (p_token p) = Some tok) (players r) = Some p0" "isAlive p0"
    and lim: "filter (\<lambda>t. rd_now rd - t < 800) (case wordSubmissions s tok of None \<Rightarrow> [] | Some l \<Rightarrow> l) = []"
    and turn: "p_token (players r ! (currentPlayerIndex (game r) mod length (players r))) = tok"
    and w: "trim (toUpperCase E (orElseS (sw_word pl) [])) = w" "w \<noteq> []"
    and syl: "trim (toUpperCase E (orElseS (currentSyllable (game r)) [])) = y"
             "y = [] \<or> includesStr w y"
    and d: "dictHas (index s) w"
  shows "\<exists>es. emitted (submitWord E rd sid (Some tok) pl s)
           = emitted s @ (ToRoom (sw_roomId pl), WordAccepted (p_name p0) sid w (wordsFound p0 + 1)) # es"
    and "wordSubmissions (submitWord E rd sid (Some tok) pl s) tok = Some [rd_now rd]"
proof -
  obtain s4 where sw: "submitWord E rd sid (Some tok) pl s
        = startNextRound E rd (sw_roomId pl) (advanceToNextAlivePlayer (sw_roomId pl) s4)"
      and e4: "emitted s4 = emitted s @ [(ToRoom (sw_roomId pl), WordAccepted (p_name p0) sid w (wordsFound p0 + 1))]"
      and w4: "wordSubmissions s4 = (wordSubmissions s)(tok \<mapsto> [rd_now rd])"
    using assms
    by (auto simp: submitWord_def Let_def putRoom_def emit_def dictHas_def)
  from round_after_accept[OF e4 w4, of E rd "sw_roomId pl"] sw
  show "\<exists>es. emitted (submitWord E rd sid (Some tok) pl s)
           = emitted s @ (ToRoom (sw_roomId pl), WordAccepted (p_name p0) sid w (wordsFound p0 + 1)) # es"
    and "wordSubmissions (submitWord E rd sid (Some tok) pl s) tok = Some [rd_now rd]"
    by simp_all
qed

lemma guard_find_cong:
  "map (\<lambda>p. (p_token p, isAlive p)) ps' = map (\<lambda>p. (p_token p, isAlive p)) ps \<Longrightarrow>
   (case find (\<lambda>p. Some (p_token p) = Some tok) ps' of None \<Rightarrow> False | Some p \<Rightarrow> isAlive p)
     = (case find (\<lambda>p. Some (p_token p) = Some tok) ps of None \<Rightarrow> False | Some p \<Rightarrow> isAlive p)"
proof (induction ps arbitrary: ps')
  case Nil then show ?case by simp
next
  case (Cons a ps)
  then obtain b ps2 where "ps' = b # ps2" by (cases ps') auto
  with Cons show ?case by auto
qed

lemma putRoom_canSubmit:
  "getRoom (roomManager s) roomId = Some r \<Longrightarrow> sameGuards r r' \<Longrightarrow>
   canSubmit (putRoom roomId r' s) rid tok = canSubmit s rid tok"
  using guard_find_cong[of "players r'" "players r" tok]
  by (auto simp: canSubmit_def putRoom_def getRoom_def sameGuards_def)

lemma updFirst_guards:
  "(\<And>p. p_token (f p) = p_token p \<and> isAlive (f p) = isAlive p) \<Longrightarrow>
   map (\<lambda>p. (p_token p, isAlive p)) (updFirst P f xs) = map (\<lambda>p. (p_token p, isAlive p)) xs"
  by (induction xs) auto

lemma canSubmit_emit [simp]: "canSubmit (emit t p s) rid tok = canSubmit s rid tok"
  by (simp add: canSubmit_def emit_def)

lemma canSubmit_ws [simp]: "canSubmit (s\<lparr>wordSubmissions := w\<rparr>) rid tok = canSubmit s rid tok"
  by (simp add: canSubmit_def)

lemma getRoom_emit [simp]: "getRoom (roomManager (emit t p s)) rid = getRoom (roomManager s) rid"
  by (simp add: emit_def)

lemma getRoom_ws [simp]:
  "getRoom (roomManager (s\<lparr>wordSubmissions := w\<rparr>)) rid = getRoom (roomManager s) rid"
  by simp

lemma getRoom_putRoom:
  "getRoom (roomManager (putRoom roomId r s)) rid = (if rid = roomId then Some r else getRoom (roomManager s) rid)"
  by (simp add: putRoom_def getRoom_def)

lemma startRoomTimer_canSubmit:
  "canSubmit (startRoomTimer roomId d now s) rid tok = canSubmit s rid tok"
proof (cases "getRoom (roomManager s) roomId")
  case None then show ?thesis by (simp add: startRoomTimer_def)
next
  case (Some r)
  then show ?thesis
    by (simp add: startRoomTimer_def Let_def putRoom_canSubmit[OF Some] sameGuards_def)
qed

lemma advance_canSubmit:
  "canSubmit (advanceToNextAlivePlayer roomId s) rid tok = canSubmit s rid tok"
proof (cases "getRoom (roomManager s) roomId")
  case None then show ?thesis by (simp add: advanceToNextAlivePlayer_def)
next
  case (Some r)
  then show ?thesis
    by (simp add: advanceToNextAlivePlayer_def Let_def putRoom_canSubmit[OF Some] sameGuards_def)
qed

lemma startNextRound_canSubmit:
  "canSubmit (startNextRound E rd roomId s) rid tok = canSubmit s rid tok"
proof (cases "getRoom (roomManager s) roomId")
  case None then show ?thesis by (simp add: startNextRound_def)
next
  case (Some r)
  then show ?thesis
    by (simp add: startNextRound_def Let_def split_beta startRoomTimer_canSubmit
          putRoom_canSubmit[OF Some] sameGuards_def)
qed

lemma putRoom_canSubmit':
  "getRoom (roomManager s) roomId \<noteq> None \<Longrightarrow>
   sameGuards (the (getRoom (roomManager s) roomId)) r' \<Longrightarrow>
   canSubmit (putRoom roomId r' s) rid tok = canSubmit s rid tok"
  using putRoom_canSubmit by fastforce

lemma submitWord_canSubmit:
  "canSubmit (submitWord E rd sid tk pl s) rid tok = canSubmit s rid tok"
proof (cases "getRoom (roomManager s) (sw_roomId pl)")
  case None then show ?thesis by (simp add: submitWord_def)
next
  case (Some r)
  show ?thesis
    using Some
    by (simp add: submitWord_def Let_def startNextRound_canSubmit advance_canSubmit
             putRoom_canSubmit' getRoom_putRoom sameGuards_def updFirst_guards
             split: option.splits)
qed

lemma canSubmit_demo: "canSubmit demoServer ''R'' ''h''"
  by (simp add: canSubmit_def demo_room_value)

lemma busy_filter:
  "limiterBusy s tok now
     = (filter (\<lambda>t. now - t < 800) (case wordSubmissions s tok of None \<Rightarrow> [] | Some l \<Rightarrow> l) \<noteq> [])"
  by (simp add: limiterBusy_def filter_empty_conv list_ex_iff)

lemma submitWord_None: "submitWord E rd sid None pl s = s"
proof -
  have f: "\<And>ps :: player list. find (\<lambda>p. False) ps = None"
    by (simp add: find_None_iff)
  show ?thesis
    by (cases "getRoom (roomManager s) (sw_roomId pl)") (simp_all add: submitWord_def Let_def f)
qed

lemma dropped:
  "\<not> canSubmit s (sw_roomId pl) tok \<Longrightarrow> submitWord E rd sid (Some tok) pl s = s"
  by (auto simp: canSubmit_def submitWord_def Let_def split: option.splits)

lemma limited:
  assumes busy: "limiterBusy s tok (rd_now rd)"
  shows "(newEvents s (submitWord E rd sid (Some tok) pl s) = []
          \<or> newEvents s (submitWord E rd sid (Some tok) pl s) = [(ToSocket sid, WordRejected sid TropRapide)])
       \<and> (canSubmit s (sw_roomId pl) tok \<longrightarrow>
            newEvents s (submitWord E rd sid (Some tok) pl s) = [(ToSocket sid, WordRejected sid TropRapide)])
       \<and> roomManager (submitWord E rd sid (Some tok) pl s) = roomManager s
       \<and> wordSubmissions (submitWord E rd sid (Some tok) pl s) = wordSubmissions s"
proof -
  from busy obtain l where l: "wordSubmissions s tok = Some l"
    and f: "filter (\<lambda>t. rd_now rd - t < 800) l \<noteq> []"
    by (auto simp: busy_filter split: option.splits)
  have u: "(wordSubmissions s)(tok \<mapsto> l) = wordSubmissions s" using l by auto
  show ?thesis
    using l f u
    by (auto simp: submitWord_def newEvents_def canSubmit_def emit_def Let_def split: option.splits)
qed

lemma passes_records:
  assumes c: "canSubmit s (sw_roomId pl) tok" and nb: "\<not> limiterBusy s tok (rd_now rd)"
  shows "wordSubmissions (submitWord E rd sid (Some tok) pl s) = (wordSubmissions s)(tok \<mapsto> [rd_now rd])"
proof -
  from c obtain r p0 where r: "getRoom (roomManager s) (sw_roomId pl) = Some r" "gameState r = Playing"
    and p: "find (\<lambda>p. Some (p_token p) = Some tok) (players r) = Some p0" "isAlive p0"
    by (auto simp: canSubmit_def split: option.splits)
  from nb have f: "filter (\<lambda>t. rd_now rd - t < 800)
                     (case wordSubmissions s tok of None \<Rightarrow> [] | Some l \<Rightarrow> l) = []"
    by (simp add: busy_filter)
  show ?thesis
    using r p f
    by (simp add: submitWord_def Let_def emit_def putRoom_def startNextRound_keeps advance_keeps)
qed

lemma submitWord_limiter:
  "wordSubmissions (submitWord E rd sid (Some tok) pl s)
     = (if canSubmit s (sw_roomId pl) tok \<and> \<not> limiterBusy s tok (rd_now rd)
        then (wordSubmissions s)(tok \<mapsto> [rd_now rd]) else wordSubmissions s)"
  using passes_records[of s pl tok rd E sid] dropped[of s pl tok E rd sid]
        limited[of s tok rd E sid pl]
  by auto

lemma accepted_passes:
  assumes a: "list_ex isWordAccepted (newEvents s (submitWord E rd sid (Some tok) pl s))"
  shows "canSubmit s (sw_roomId pl) tok \<and> \<not> limiterBusy s tok (rd_now rd)"
proof (rule ccontr)
  assume n: "\<not> (canSubmit s (sw_roomId pl) tok \<and> \<not> limiterBusy s tok (rd_now rd))"
  show False
  proof (cases "canSubmit s (sw_roomId pl) tok")
    case False
    with a dropped[OF False, of E rd sid] show False by (simp add: newEvents_def)
  next
    case True
    with n have "limiterBusy s tok (rd_now rd)" by simp
    from limited[OF this, of E sid pl] a show False
      by (auto simp: isWordAccepted_def)
  qed
qed

lemma disconnect_limiter:
  "wordSubmissions (disconnect now sid tk s)
     = (case tk of None \<Rightarrow> wordSubmissions s | Some t \<Rightarrow> (wordSubmissions s)(t := None))"
  by (simp add: disconnect_def Let_def split: option.splits)

lemma handle_keeps_busy:
  assumes b: "limiterBusy s tok t2" and nd: "\<not> disconnects tok ev"
  shows "limiterBusy (handle E ev s) tok t2"
proof (cases ev)
  case (SubmitWord rd sid tk pl)
  show ?thesis
  proof (cases tk)
    case None
    with SubmitWord b show ?thesis by (simp add: submitWord_None)
  next
    case (Some t)
    show ?thesis
    proof (cases "t = tok")
      case False
      with SubmitWord Some b show ?thesis
        by (simp add: limiterBusy_def submitWord_limiter)
    next
      case True
      from b obtain l t' where l: "wordSubmissions s tok = Some l" "t' \<in> set l" "t2 - t' < 800"
        by (cases "wordSubmissions s tok") (auto simp: limiterBusy_def list_ex_iff)
      show ?thesis
      proof (cases "limiterBusy s tok (rd_now rd)")
        case True
        with SubmitWord Some \<open>t = tok\<close> b show ?thesis
          by (simp add: limiterBusy_def submitWord_limiter)
      next
        case False
        with l have "\<not> rd_now rd - t' < 800"
          by (auto simp: limiterBusy_def list_ex_iff)
        with l(3) have "t2 - rd_now rd < 800" by simp
        with SubmitWord Some \<open>t = tok\<close> b show ?thesis
          by (simp add: limiterBusy_def submitWord_limiter)
      qed
    qed
  qed
next
  case (Disconnect now sid tk)
  with b nd show ?thesis
    by (auto simp: limiterBusy_def disconnect_limiter split: option.splits)
next
  case (Other f)
  with b show ?thesis by (simp add: limiterBusy_def)
qed

lemma run_keeps_busy:
  "limiterBusy s tok t2 \<Longrightarrow> \<not> list_ex (disconnects tok) evs \<Longrightarrow> limiterBusy (run E evs s) tok t2"
  unfolding run_def
proof (induction evs arbitrary: s)
  case Nil then show ?case by simp
next
  case (Cons ev evs)
  from Cons.prems have "limiterBusy (handle E ev s) tok t2"
    by (simp add: handle_keeps_busy)
  with Cons show ?case by simp
qed


text \<open>
  Claim C6, amended. Take two \<open>submitWord\<close> events with the same token and any events
  handled between them. The first writes to the rate limiter exactly when it passes the
  two guards (a playing room, a living player with the token in it) and the limiter
  holds no submission of the token less than 800 ms old; it then leaves its own time as
  the only entry of the token, and otherwise leaves the limiter as it was. Every
  accepted submission has written. When the limiter holds the time of the first after
  the first, the second comes less than 800 ms after it and no socket carrying the
  token has disconnected in between, the second yields no \<open>wordAccepted\<close>: it is answered
  \<open>wordRejected\<close> with the reason \<open>Trop rapide!\<close> if it names a playing room where the
  token has a living player, and dropped without an answer otherwise.
\<close>

theorem rapid_second_submission_rejected:
  "rateLimited E rd1 rd2 sid1 sid2 tok pl1 pl2 evs s0"
proof -
  let ?s1 = "submitWord E rd1 sid1 (Some tok) pl1 s0"
  let ?sb = "run E evs ?s1"
  let ?s2 = "submitWord E rd2 sid2 (Some tok) pl2 ?sb"
  let ?passes = "canSubmit s0 (sw_roomId pl1) tok \<and> \<not> limiterBusy s0 tok (rd_now rd1)"
  have a: "?passes \<longrightarrow> wordSubmissions ?s1 = (wordSubmissions s0)(tok \<mapsto> [rd_now rd1])"
    by (simp add: submitWord_limiter)
  have b: "\<not> ?passes \<longrightarrow> wordSubmissions ?s1 = wordSubmissions s0"
    by (simp add: submitWord_limiter)
  have c: "list_ex isWordAccepted (newEvents s0 ?s1) \<longrightarrow> ?passes"
    using accepted_passes by blast
  have d: "\<not> list_ex isWordAccepted (newEvents ?sb ?s2)
        \<and> (canSubmit ?sb (sw_roomId pl2) tok \<longrightarrow>
              newEvents ?sb ?s2 = [(ToSocket sid2, WordRejected sid2 TropRapide)])
        \<and> (\<not> canSubmit ?sb (sw_roomId pl2) tok \<longrightarrow> newEvents ?sb ?s2 = [])"
    if rec: "recordedAt ?s1 tok (rd_now rd1)" and close: "rd_now rd2 - rd_now rd1 < 800"
      and nd: "\<not> list_ex (disconnects tok) evs"
  proof -
    from rec close have "limiterBusy ?s1 tok (rd_now rd2)"
      by (auto simp: recordedAt_def limiterBusy_def list_ex_iff split: option.splits)
    from run_keeps_busy[OF this nd] have busy: "limiterBusy ?sb tok (rd_now rd2)" .
    note l = limited[OF busy, of E sid2 pl2]
    from l have 1: "\<not> list_ex isWordAccepted (newEvents ?sb ?s2)"
      by (auto simp: isWordAccepted_def)
    have 3: "\<not> canSubmit ?sb (sw_roomId pl2) tok \<longrightarrow> newEvents ?sb ?s2 = []"
      using dropped[of ?sb pl2 tok E rd2 sid2] by (simp add: newEvents_def)
    from l 1 3 show ?thesis by blast
  qed
  from a b c d show ?thesis by (simp add: rateLimited_def Let_def)
qed

lemma dictHas_demo: "dictHas (index demoServer) ''RE''"
  by (simp add: demoServer_def dictHas_def indexRE_fields)

lemma upper_trim_re: "trim (toUpperCase asciiEnv ''re'') = ''RE''"
  by (simp add: asciiEnv_def asciiUpper_def trim_def isWhiteSpace_def)

lemma afterElsewhere_eq: "afterElsewhere = demoServer"
  by (simp add: afterElsewhere_def submitWord_def submitElsewhere_def demo_nowhere)

lemma demo_accepts:
  "\<exists>es. emitted (submitWord asciiEnv rd ''s0'' (Some ''h'') submitRE demoServer)
          = (ToRoom ''R'', WordAccepted (Some ''H'') ''s0'' ''RE'' 1) # es"
  "wordSubmissions (submitWord asciiEnv rd ''s0'' (Some ''h'') submitRE demoServer) ''h''
     = Some [rd_now rd]"
proof -
  let ?r = "roomOf demoServer ''R''"
  let ?h = "\<lparr>p_token = ''h'', p_socketId = ''s0'', p_name = Some ''H'', p_avatar = [],
                   isHost = True, isReady = True, lives = 2, wordsFound = 0, isAlive = True,
                   disconnected = False\<rparr>"
  have v: "getRoom (roomManager demoServer) ''R'' = Some ?r"
    by (simp add: roomOf_def demo_room_value)
  have f1: "getRoom (roomManager demoServer) (sw_roomId submitRE) = Some ?r"
    by (simp add: submitRE_def v)
  have f2: "gameState ?r = Playing" by (simp add: roomOf_def demo_room_value)
  have f3: "find (\<lambda>p. Some (p_token p) = Some ''h'') (players ?r) = Some ?h"
    by (simp add: roomOf_def demo_room_value)
  have f4: "isAlive ?h" by simp
  have f5: "filter (\<lambda>t. rd_now rd - t < 800)
              (case wordSubmissions demoServer ''h'' of None \<Rightarrow> [] | Some l \<Rightarrow> l) = []"
    by (simp add: demoServer_def)
  have f6: "p_token (players ?r ! (currentPlayerIndex (game ?r) mod length (players ?r))) = ''h''"
    by (simp add: roomOf_def demo_room_value)
  have f7: "trim (toUpperCase asciiEnv (orElseS (sw_word submitRE) [])) = ''RE''"
    by (simp add: submitRE_def orElseS_def upper_trim_re)
  have f8: "''RE'' \<noteq> []" by simp
  have f9: "trim (toUpperCase asciiEnv (orElseS (currentSyllable (game ?r)) [])) = []"
    by (simp add: roomOf_def demo_room_value orElseS_def asciiEnv_def trim_def)
  have f10: "[] = [] \<or> includesStr ''RE'' []" by simp
  have e: "emitted demoServer = []" by (simp add: demoServer_def)
  note ap = accepted_path[where sid = "''s0''", OF f1 f2 f3 f4 f5 f6 f7 f8 f9 f10 dictHas_demo]
  from ap(1) e
  show "\<exists>es. emitted (submitWord asciiEnv rd ''s0'' (Some ''h'') submitRE demoServer)
          = (ToRoom ''R'', WordAccepted (Some ''H'') ''s0'' ''RE'' 1) # es"
    by (simp add: submitRE_def)
  from ap(2)
  show "wordSubmissions (submitWord asciiEnv rd ''s0'' (Some ''h'') submitRE demoServer) ''h''
     = Some [rd_now rd]" .
qed


lemma close_AB: "rd_now rdB - rd_now rdA < 800"
  by (simp add: rdA_def rdB_def)

lemma afterRE_facts:
  "recordedAt afterRE ''h'' (rd_now rdA)"
  "list_ex isWordAccepted (newEvents demoServer afterRE)"
  "canSubmit afterRE ''R'' ''h''"
  "\<not> canSubmit afterRE ''nowhere'' ''h''"
proof -
  show "recordedAt afterRE ''h'' (rd_now rdA)"
    by (simp add: afterRE_def recordedAt_def demo_accepts(2))
  obtain es where "emitted afterRE = (ToRoom ''R'', WordAccepted (Some ''H'') ''s0'' ''RE'' 1) # es"
    unfolding afterRE_def using demo_accepts(1) by blast
  then show "list_ex isWordAccepted (newEvents demoServer afterRE)"
    by (simp add: newEvents_def demoServer_def isWordAccepted_def)
  have "canSubmit afterRE ''R'' ''h'' = canSubmit demoServer ''R'' ''h''"
    unfolding afterRE_def by (rule submitWord_canSubmit)
  then show "canSubmit afterRE ''R'' ''h''"
    by (simp add: canSubmit_demo)
  have "canSubmit afterRE ''nowhere'' ''h'' = canSubmit demoServer ''nowhere'' ''h''"
    unfolding afterRE_def by (rule submitWord_canSubmit)
  then show "\<not> canSubmit afterRE ''nowhere'' ''h''"
    by (simp add: canSubmit_def demo_nowhere)
qed

lemma soloServer_value:
  "getRoom (roomManager soloServer) ''R'' = Some
     \<lparr>r_id = ''R'', r_name = ''Salle de jeu'', host = Some ''H'', hostAvatar = [], hostToken = ''h'',
      pendingSpectators = [],
      players = [\<lparr>p_token = ''h'', p_socketId = ''s0'', p_name = Some ''H'', p_avatar = [],
                   isHost = True, isReady = True, lives = 2, wordsFound = 0, isAlive = True,
                   disconnected = False\<rparr>],
      gameState = Playing,
      settings = \<lparr>scenario = None, wpp = None, maxPlayers = 6, startingLives = 2,
                   extraTurnSeconds = None\<rparr>,
      game = \<lparr>currentSyllable = None, currentPlayerIndex = 0, roundNumber = 0,
               startTime = Some 1000, timer = None, timerEndTime = None, timerTotal = None,
               paused = False, pausedRemaining = None, pausedAt = None,
               usedSyllables = {}, serverControlledUntil = None\<rparr>,
      createdAt = 0, recentlyLeft = []\<rparr>"
  "index soloServer = indexRE" "wordSubmissions soloServer = Map.empty" "emitted soloServer = []"
  by (simp_all add: soloServer_def soloRoom_def room_eval)

lemma upper_trim_nil: "trim (toUpperCase asciiEnv []) = []"
  by (simp add: asciiEnv_def asciiUpper_def trim_def)

lemma pick_RE: "pickServerSyllable asciiEnv indexRE 0 0 {} None = (''RE'', {})"
  by (simp add: pickServerSyllable_def allowedLengths_def scenarioKey_def truthyS_def countFilter_def
        indexRE_fields indexRE_counts_Suc Let_def randIndex_def)

lemma soloFirst_room:
  "getRoom (roomManager soloFirst) ''R'' = Some
     \<lparr>r_id = ''R'', r_name = ''Salle de jeu'', host = Some ''H'', hostAvatar = [], hostToken = ''h'',
      pendingSpectators = [],
      players = [\<lparr>p_token = ''h'', p_socketId = ''s0'', p_name = Some ''H'', p_avatar = [],
                   isHost = True, isReady = True, lives = 2, wordsFound = 1, isAlive = True,
                   disconnected = False\<rparr>],
      gameState = Playing,
      settings = \<lparr>scenario = None, wpp = None, maxPlayers = 6, startingLives = 2,
                   extraTurnSeconds = None\<rparr>,
      game = \<lparr>currentSyllable = Some ''RE'', currentPlayerIndex = 0, roundNumber = 1,
               startTime = Some 1000, timer = Some \<lparr>tm_endTime = 10000, tm_total = 8000\<rparr>,
               timerEndTime = Some 10000, timerTotal = Some 8000,
               paused = False, pausedRemaining = None, pausedAt = None,
               usedSyllables = {''RE''}, serverControlledUntil = Some 5000\<rparr>,
      createdAt = 0, recentlyLeft = []\<rparr>"
  unfolding soloFirst_def
  by (simp add: submitWord_def submitRE_def rdA_def soloServer_value soloServer_value(1)[unfolded getRoom_def] Let_def putRoom_def emit_def
        getRoom_def orElseS_def orNullS_def truthyS_def upper_trim_re dictHas_def indexRE_fields
        isHostOf_def upper_trim_nil
        advanceToNextAlivePlayer_def startNextRound_def startRoomTimer_def pick_RE split_beta)


lemma soloFirst_index: "index soloFirst = indexRE"
  unfolding soloFirst_def
  by (simp add: submitWord_def submitRE_def rdA_def soloServer_value soloServer_value(1)[unfolded getRoom_def] Let_def putRoom_def emit_def
        getRoom_def orElseS_def orNullS_def truthyS_def upper_trim_re dictHas_def indexRE_fields
        isHostOf_def upper_trim_nil
        advanceToNextAlivePlayer_def startNextRound_def startRoomTimer_def pick_RE split_beta)

lemma unregister_rooms: "rooms (fst (unregisterSocket rm sid)) = rooms rm"
  by (simp add: unregisterSocket_def Let_def split: option.splits)

lemma register_rooms: "rooms (fst (registerSocket rm t sid)) = rooms rm"
  by (simp add: registerSocket_def Let_def split: option.splits)

lemma disconnect_keeps:
  "getRoom (roomManager (disconnect now sid tk s)) rid = getRoom (roomManager s) rid"
  "index (disconnect now sid tk s) = index s"
  "emitted (disconnect now sid tk s) = emitted s"
  by (simp_all add: disconnect_def getRoom_def Let_def unregister_rooms split: option.splits)

lemma disconnect_canSubmit:
  "canSubmit (disconnect now sid tk s) rid tok = canSubmit s rid tok"
  by (simp add: canSubmit_def disconnect_keeps)

lemma soloBetween_facts:
  "getRoom (roomManager soloBetween) ''R'' = getRoom (roomManager soloFirst) ''R''"
  "index soloBetween = indexRE"
  "wordSubmissions soloBetween ''h'' = None"
  by (simp_all add: soloBetween_def reconnection_def run_def disconnect_keeps disconnect_limiter
        getRoom_def register_rooms soloFirst_index disconnect_keeps(1)[unfolded getRoom_def])

lemma solo_accepts:
  "list_ex isWordAccepted (newEvents soloServer soloFirst)"
  "recordedAt soloFirst ''h'' (rd_now rdA)"
  "list_ex isWordAccepted (newEvents soloBetween soloSecond)"
proof -
  let ?h = "\<lambda>n. \<lparr>p_token = ''h'', p_socketId = ''s0'', p_name = Some ''H'', p_avatar = [],
                   isHost = True, isReady = True, lives = 2, wordsFound = n, isAlive = True,
                   disconnected = False\<rparr>"
  have d: "dictHas indexRE ''RE''" by (simp add: dictHas_def indexRE_fields)
  have w: "trim (toUpperCase asciiEnv (orElseS (sw_word submitRE) [])) = ''RE''" "''RE'' \<noteq> []"
    by (simp_all add: submitRE_def orElseS_def upper_trim_re)
  let ?r0 = "roomOf soloServer ''R''"
  have v0: "getRoom (roomManager soloServer) (sw_roomId submitRE) = Some ?r0"
    by (simp add: roomOf_def submitRE_def soloServer_value)
  have a0: "gameState ?r0 = Playing"
    "find (\<lambda>p. Some (p_token p) = Some ''h'') (players ?r0) = Some (?h 0)" "isAlive (?h 0)"
    "filter (\<lambda>t. rd_now rdA - t < 800)
       (case wordSubmissions soloServer ''h'' of None \<Rightarrow> [] | Some l \<Rightarrow> l) = []"
    "p_token (players ?r0 ! (currentPlayerIndex (game ?r0) mod length (players ?r0))) = ''h''"
    by (simp_all add: roomOf_def soloServer_value)
  have y0: "trim (toUpperCase asciiEnv (orElseS (currentSyllable (game ?r0)) [])) = []"
    "[] = [] \<or> includesStr ''RE'' []"
    by (simp_all add: roomOf_def soloServer_value orElseS_def upper_trim_nil)
  have d0: "dictHas (index soloServer) ''RE''" using d by (simp add: soloServer_value)
  note ap0 = accepted_path[where sid = "''s0''" and E = asciiEnv, OF v0 a0 w y0 d0]
  from ap0(1) show "list_ex isWordAccepted (newEvents soloServer soloFirst)"
    by (auto simp: soloFirst_def newEvents_def isWordAccepted_def)
  from ap0(2) show "recordedAt soloFirst ''h'' (rd_now rdA)"
    by (simp add: soloFirst_def recordedAt_def)
  let ?r1 = "roomOf soloBetween ''R''"
  have v1: "getRoom (roomManager soloBetween) (sw_roomId submitRE) = Some ?r1"
    by (simp add: roomOf_def submitRE_def soloBetween_facts soloFirst_room)
  have a1: "gameState ?r1 = Playing"
    "find (\<lambda>p. Some (p_token p) = Some ''h'') (players ?r1) = Some (?h 1)" "isAlive (?h 1)"
    "filter (\<lambda>t. rd_now rdB - t < 800)
       (case wordSubmissions soloBetween ''h'' of None \<Rightarrow> [] | Some l \<Rightarrow> l) = []"
    "p_token (players ?r1 ! (currentPlayerIndex (game ?r1) mod length (players ?r1))) = ''h''"
    by (simp_all add: roomOf_def soloBetween_facts soloFirst_room)
  have y1: "trim (toUpperCase asciiEnv (orElseS (currentSyllable (game ?r1)) [])) = ''RE''"
    "''RE'' = [] \<or> includesStr ''RE'' ''RE''"
    by (simp_all add: roomOf_def soloBetween_facts soloFirst_room orElseS_def asciiEnv_def
          asciiUpper_def trim_def isWhiteSpace_def)
  have d1: "dictHas (index soloBetween) ''RE''" using d by (simp add: soloBetween_facts)
  note ap1 = accepted_path[where sid = "''s2''" and E = asciiEnv, OF v1 a1 w y1 d1]
  from ap1(1) show "list_ex isWordAccepted (newEvents soloBetween soloSecond)"
    by (auto simp: soloSecond_def newEvents_def isWordAccepted_def)
qed

lemma afterGuest_canSubmit: "canSubmit afterGuest ''R'' ''h''"
  by (simp add: afterGuest_def guestEvents_def run_def submitWord_canSubmit disconnect_canSubmit
        afterRE_facts)

text \<open>
  Three pairs of submissions of \<open>h\<close>, 100 ms apart. A first submission to a room that
  does not exist writes nothing, and the second is accepted. After a first submission
  that is recorded, a second one to a room that does not exist gets no answer. And in
  the room where \<open>h\<close> plays alone, the first is accepted and recorded, the socket of \<open>h\<close>
  disconnects, which empties the entry of \<open>h\<close>, and the second is accepted too.
\<close>

theorem rate_limit_counterexample:
  "rd_now rdB - rd_now rdA < 800
   \<and> wordSubmissions afterElsewhere = wordSubmissions demoServer
   \<and> newEvents demoServer afterElsewhere = []
   \<and> list_ex isWordAccepted (newEvents afterElsewhere afterElsewhereThenRE)
   \<and> recordedAt afterRE ''h'' (rd_now rdA)
   \<and> newEvents afterRE afterREThenElsewhere = []
   \<and> list_ex isWordAccepted (newEvents soloServer soloFirst)
   \<and> recordedAt soloFirst ''h'' (rd_now rdA)
   \<and> list_ex (disconnects ''h'') reconnection
   \<and> list_ex isWordAccepted (newEvents soloBetween soloSecond)"
proof -
  have 1: "newEvents demoServer afterElsewhere = []"
    "wordSubmissions afterElsewhere = wordSubmissions demoServer"
    by (simp_all add: afterElsewhere_eq newEvents_def)
  obtain es where "emitted afterElsewhereThenRE = (ToRoom ''R'', WordAccepted (Some ''H'') ''s0'' ''RE'' 1) # es"
    unfolding afterElsewhereThenRE_def afterElsewhere_eq using demo_accepts(1) by blast
  then have 2: "list_ex isWordAccepted (newEvents afterElsewhere afterElsewhereThenRE)"
    by (simp add: afterElsewhere_eq newEvents_def demoServer_def isWordAccepted_def)
  have "afterREThenElsewhere = afterRE"
    unfolding afterREThenElsewhere_def
    by (rule dropped) (simp add: submitElsewhere_def afterRE_facts(4))
  then have 3: "newEvents afterRE afterREThenElsewhere = []" by (simp add: newEvents_def)
  have 4: "list_ex (disconnects ''h'') reconnection" by (simp add: reconnection_def)
  from close_AB 1 2 afterRE_facts(1) 3 solo_accepts 4 show ?thesis by simp
qed

text \<open>
  Claim C6 in the room of two players: the host submits \<open>re\<close> at 2000 ms, which is
  accepted and recorded; the guest submits and disconnects; the host submits again at
  2100 ms and is answered \<open>Trop rapide!\<close>.
\<close>

theorem rapid_second_submission_witness:
  "canSubmit demoServer ''R'' ''h'' \<and> \<not> limiterBusy demoServer ''h'' (rd_now rdA)
   \<and> wordSubmissions afterRE = (wordSubmissions demoServer)(''h'' \<mapsto> [rd_now rdA])
   \<and> list_ex isWordAccepted (newEvents demoServer afterRE)
   \<and> recordedAt afterRE ''h'' (rd_now rdA)
   \<and> rd_now rdB - rd_now rdA < 800
   \<and> \<not> list_ex (disconnects ''h'') guestEvents
   \<and> canSubmit afterGuest ''R'' ''h''
   \<and> \<not> list_ex isWordAccepted (newEvents afterGuest afterGuestThenRE)
   \<and> newEvents afterGuest afterGuestThenRE = [(ToSocket ''s0'', WordRejected ''s0'' TropRapide)]"
proof -
  note th = rapid_second_submission_rejected[of asciiEnv rdA rdB "''s0''" "''s0''" "''h''"
      submitRE submitRE guestEvents demoServer, unfolded rateLimited_def Let_def,
      folded afterRE_def, folded afterGuest_def, folded afterGuestThenRE_def]
  have r: "sw_roomId submitRE = ''R''" by (simp add: submitRE_def)
  have p: "canSubmit demoServer ''R'' ''h''" "\<not> limiterBusy demoServer ''h'' (rd_now rdA)"
    by (rule canSubmit_demo) (simp add: limiterBusy_def demoServer_def)
  have nd: "\<not> list_ex (disconnects ''h'') guestEvents" by (simp add: guestEvents_def)
  from th p r have ws: "wordSubmissions afterRE = (wordSubmissions demoServer)(''h'' \<mapsto> [rd_now rdA])"
    by simp
  from th r afterRE_facts(1) close_AB nd afterGuest_canSubmit
  have "\<not> list_ex isWordAccepted (newEvents afterGuest afterGuestThenRE)
        \<and> newEvents afterGuest afterGuestThenRE = [(ToSocket ''s0'', WordRejected ''s0'' TropRapide)]"
    by (simp add: isWordAccepted_def)
  with p ws afterRE_facts close_AB nd afterGuest_canSubmit show ?thesis by blast
qed

section \<open>Server: the choice of the syllable under a scenario\<close>

lemma scenario_facts:
  assumes "(scenarioKey E sc = ''sub8'' \<and> bound = 8) \<or> (scenarioKey E sc = ''sub50'' \<and> bound = 50)"
  shows "allowedLengths E sc = [2, 3]" and "countFilter E sc = Some (\<lambda>c. c \<le> bound)"
proof -
  from assms have "scenarioKey E sc \<noteq> []" by auto
  then have t: "truthyS sc" by (auto simp: scenarioKey_def split: if_splits)
  from assms show "allowedLengths E sc = [2, 3]" by (auto simp: allowedLengths_def)
  from assms t show "countFilter E sc = Some (\<lambda>c. c \<le> bound)"
    by (auto simp: countFilter_def)
qed

lemma pick_scenario:
  assumes sc: "(scenarioKey E sc = ''sub8'' \<and> bound = 8) \<or> (scenarioKey E sc = ''sub50'' \<and> bound = 50)"
    and av: "avail \<noteq> []"
    and avail: "avail = filter (\<lambda>L. syllableCounts idx L \<noteq> []) [2, 3]"
  shows "pickServerSyllable E idx u1 u2 used sc =
     (let m = syllableCounts idx (avail ! randIndex u1 (length avail));
          cands = filter (\<lambda>(s, c). c \<le> bound) m;
          e1 = filter (\<lambda>(s, c). s \<notin> used) cands
      in if e1 \<noteq> [] then (fst (e1 ! randIndex u2 (length e1)), used)
         else if cands \<noteq> [] then (fst (cands ! randIndex u2 (length cands)), {})
         else (fst (m ! randIndex u2 (length m)), {}))"
proof -
  have c: "filter (\<lambda>(s, c). c \<le> bound) (filter (\<lambda>(s, c). s \<notin> used) m)
         = filter (\<lambda>(s, c). s \<notin> used) (filter (\<lambda>(s, c). c \<le> bound) m)" for m :: "(string \<times> nat) list"
    by (induction m) auto
  have a: "filter (\<lambda>L. syllableCounts idx L \<noteq> []) (allowedLengths E sc) = avail"
    by (simp only: scenario_facts(1)[OF sc] avail)
  show ?thesis
    unfolding pickServerSyllable_def a
    using av
    by (simp add: scenario_facts(2)[OF sc] Let_def c del: filter_filter)
qed

lemma round_stored:
  "getRoom (roomManager s) roomId = Some r \<Longrightarrow> gameState r = Playing \<Longrightarrow>
   roundStored E rd roomId s r"
  by (simp add: roundStored_def startNextRound_def startRoomTimer_def putRoom_def emit_def
        getRoom_def roomOf_def newEvents_def Let_def split_beta)

text \<open>
  Claim C2, amended. Under the scenario \<open>sub8\<close> (resp. \<open>sub50\<close>), when the count map of
  length 2 or of length 3 has entries, \<open>pickServerSyllable\<close> draws one of these lengths,
  and: the syllable it returns has a stored count of at most 8 (resp. 50) whenever a
  syllable of the drawn length has; the syllable is not in \<open>usedSyllables\<close> as the call
  leaves it; if every syllable of the drawn length within the limit is in
  \<open>usedSyllables\<close> the set is cleared and the syllable is drawn among them, otherwise the
  set is kept and the syllable is drawn among those not in it. \<open>startNextRound\<close> makes
  the syllable current, adds it to the set and sends it in \<open>syllableUpdate\<close>.
\<close>

theorem scenario_draw_respects_filter:
  assumes u1: "0 \<le> u1" "u1 < 1" and u2: "0 \<le> u2" "u2 < 1"
    and wf: "wfIndex idx"
    and sc: "(scenarioKey E sc = ''sub8'' \<and> bound = 8) \<or> (scenarioKey E sc = ''sub50'' \<and> bound = 50)"
    and av: "filter (\<lambda>L. syllableCounts idx L \<noteq> []) [2, 3] \<noteq> []"
  shows "scenarioDraw E idx u1 u2 used sc bound
         \<and> (\<forall>rd roomId s r. getRoom (roomManager s) roomId = Some r \<longrightarrow> gameState r = Playing
                \<longrightarrow> roundStored E rd roomId s r)"
proof -
  define avail where "avail = filter (\<lambda>L. syllableCounts idx L \<noteq> []) [2, 3]"
  define L where "L = avail ! randIndex u1 (length avail)"
  define m where "m = syllableCounts idx L"
  define cands where "cands = filter (\<lambda>(s, c). c \<le> bound) m"
  define e1 where "e1 = filter (\<lambda>(s, c). s \<notin> used) cands"
  have ane: "avail \<noteq> []" unfolding avail_def by (rule av)
  have Lin: "L \<in> set avail"
    unfolding L_def using pick_nth[OF u1 ane] .
  then have mne: "m \<noteq> []" unfolding avail_def m_def set_filter by blast
  have stored: "storedCount idx L s = Some c" if "(s, c) \<in> set m" for s c
    using wf that by (simp add: storedCount_def mapGet_def wfIndex_def m_def)
  have pk: "pickServerSyllable E idx u1 u2 used sc =
        (if e1 \<noteq> [] then (fst (e1 ! randIndex u2 (length e1)), used)
         else if cands \<noteq> [] then (fst (cands ! randIndex u2 (length cands)), {})
         else (fst (m ! randIndex u2 (length m)), {}))"
    unfolding pick_scenario[OF sc ane avail_def] Let_def e1_def cands_def m_def L_def ..
  have all: "list_all (\<lambda>(s, c). s \<in> used) cands \<longleftrightarrow> e1 = []"
    by (auto simp: e1_def list_all_iff filter_empty_conv)
  have "scenarioDraw E idx u1 u2 used sc bound"
  proof (cases "e1 = []")
    case False
    let ?e = "e1 ! randIndex u2 (length e1)"
    have ein: "?e \<in> set e1" using pick_nth[OF u2 False] .
    then have e: "fst ?e \<notin> used" "snd ?e \<le> bound" "?e \<in> set m" "?e \<in> set cands"
      by (auto simp: e1_def cands_def)
    from e(3) have st: "storedCount idx L (fst ?e) = Some (snd ?e)"
      using stored[of "fst ?e" "snd ?e"] by simp
    from False pk have p: "pickServerSyllable E idx u1 u2 used sc = (fst ?e, used)" by simp
    show "scenarioDraw E idx u1 u2 used sc bound"
      unfolding scenarioDraw_def Let_def p fst_conv snd_conv
        avail_def[symmetric] L_def[symmetric] m_def[symmetric] cands_def[symmetric]
      using Lin st e all False by auto
  next
    case True
    show "scenarioDraw E idx u1 u2 used sc bound"
    proof (cases "cands = []")
      case False
      let ?e = "cands ! randIndex u2 (length cands)"
      have ein: "?e \<in> set cands" using pick_nth[OF u2 False] .
      then have e: "snd ?e \<le> bound" "?e \<in> set m" by (auto simp: cands_def)
      from e(2) have st: "storedCount idx L (fst ?e) = Some (snd ?e)"
        using stored[of "fst ?e" "snd ?e"] by simp
      from True False pk have p: "pickServerSyllable E idx u1 u2 used sc = (fst ?e, {})" by simp
      show "scenarioDraw E idx u1 u2 used sc bound"
        unfolding scenarioDraw_def Let_def p fst_conv snd_conv
          avail_def[symmetric] L_def[symmetric] m_def[symmetric] cands_def[symmetric]
        using Lin st e ein all True by auto
    next
      case c: True
      from True c pk have p: "pickServerSyllable E idx u1 u2 used sc
          = (fst (m ! randIndex u2 (length m)), {})" by simp
      show "scenarioDraw E idx u1 u2 used sc bound"
        unfolding scenarioDraw_def Let_def p fst_conv snd_conv
          avail_def[symmetric] L_def[symmetric] m_def[symmetric] cands_def[symmetric]
        using Lin all True c by auto
    qed
  qed
  then show ?thesis using round_stored by blast
qed

lemma key_sub8: "scenarioKey asciiEnv (Some ''sub8'') = ''sub8''"
  by (simp add: scenarioKey_def truthyS_def asciiEnv_def asciiLower_def trim_def isWhiteSpace_def)

lemma rand_half: "randIndex (1/2) (Suc (Suc 0)) = Suc 0" "randIndex 0 n = 0"
  by (simp_all add: randIndex_def)

lemma avail_mixed: "filter (\<lambda>L. syllableCounts indexMixed L \<noteq> []) [2, 3] = [2, 3]"
  by (simp add: indexMixed_fields)

lemma pick_mixed_3:
  "pickServerSyllable asciiEnv indexMixed (1/2) 0 {} (Some ''sub8'') = (''XYZ'', {})"
  unfolding pick_scenario[where bound = 8 and avail = "[2, 3]", OF disjI1[OF conjI[OF key_sub8 refl]] _ avail_mixed[symmetric], simplified]
  by (simp add: rand_half indexMixed_fields Let_def)

lemma pick_mixed_2:
  "pickServerSyllable asciiEnv indexMixed 0 0 {''AB''} (Some ''sub8'') = (''AB'', {})"
  unfolding pick_scenario[where bound = 8 and avail = "[2, 3]", OF disjI1[OF conjI[OF key_sub8 refl]] _ avail_mixed[symmetric], simplified]
  by (simp add: rand_half indexMixed_fields Let_def)

lemma pick_empty:
  "pickServerSyllable asciiEnv initialIndex 0 0 {''RE''} (Some ''sub8'') = (''RE'', {''RE''})"
  by (simp add: pickServerSyllable_def initialIndex_def ALL_LENGTHS_def)

text \<open>
  Under \<open>sub8\<close>, on the index above, a call that draws the length 3 returns \<open>XYZ\<close>,
  stored with count 9, although \<open>AB\<close> of length 2 has count 1; and on an index without
  data the call returns \<open>RE\<close> while \<open>RE\<close> is in \<open>usedSyllables\<close>.
\<close>

theorem scenario_fallback_counterexample:
  "pickServerSyllable asciiEnv indexMixed (1/2) 0 {} (Some ''sub8'') = (''XYZ'', {})
   \<and> storedCount indexMixed 3 ''XYZ'' = Some 9
   \<and> storedCount indexMixed 2 ''AB'' = Some 1
   \<and> pickServerSyllable asciiEnv initialIndex 0 0 {''RE''} (Some ''sub8'') = (''RE'', {''RE''})"
  by (simp add: pick_mixed_3 pick_empty storedCount_def mapGet_def indexMixed_fields)

theorem scenario_draw_witness:
  "(0::real) \<le> 0 \<and> (0::real) < 1 \<and> wfIndex indexMixed
   \<and> scenarioKey asciiEnv (Some ''sub8'') = ''sub8''
   \<and> filter (\<lambda>L. syllableCounts indexMixed L \<noteq> []) [2, 3] \<noteq> []
   \<and> scenarioDraw asciiEnv indexMixed 0 0 {''AB''} (Some ''sub8'') 8
   \<and> pickServerSyllable asciiEnv indexMixed 0 0 {''AB''} (Some ''sub8'') = (''AB'', {})
   \<and> getRoom (roomManager demoServer) ''R'' = Some (roomOf demoServer ''R'')
   \<and> gameState (roomOf demoServer ''R'') = Playing
   \<and> roundStored asciiEnv rdA ''R'' demoServer (roomOf demoServer ''R'')"
proof -
  have u: "(0::real) \<le> 0" "(0::real) < 1" by simp_all
  have wf: "wfIndex indexMixed"
    unfolding indexMixed_def by (rule prepare_wf[OF wf_initial])
  have sc: "(scenarioKey asciiEnv (Some ''sub8'') = ''sub8'' \<and> (8::nat) = 8)
            \<or> (scenarioKey asciiEnv (Some ''sub8'') = ''sub50'' \<and> (8::nat) = 50)"
    by (simp add: key_sub8)
  have av: "filter (\<lambda>L. syllableCounts indexMixed L \<noteq> []) [2, 3] \<noteq> []"
    unfolding avail_mixed by simp
  note th = scenario_draw_respects_filter[OF u u wf sc av, of "{''AB''}"]
  from th have d: "scenarioDraw asciiEnv indexMixed 0 0 {''AB''} (Some ''sub8'') 8" by (rule conjunct1)
  from th[THEN conjunct2, rule_format, OF demo_room(1) demo_room(2)]
  have r: "roundStored asciiEnv rdA ''R'' demoServer (roomOf demoServer ''R'')" .
  from u wf av d r show ?thesis
    by (simp only: key_sub8 pick_mixed_2 demo_room simp_thms)
qed


end
